theory Spec2Isabelle
  imports Complex_Main
begin

section \<open>Data model (src/types.ts)\<close>

text \<open>
  JavaScript numbers are modelled as real numbers: the finite doubles, without rounding.
  A division whose result decides what is drawn (the cell ratio of \<open>drawImage\<close>) keeps
  JavaScript's result for a zero denominator explicit (type \<open>quot\<close> below). An optional
  field (\<open>x?: number\<close>) is an \<open>option\<close>; \<open>undefined\<close> and \<open>null\<close> are both \<open>None\<close>.
\<close>

datatype LayoutMode = Grid | LeftBig | RightBig | TopBig | BottomBig | SingleBlur | Freeform

record ImageState =
  img_id :: string
  img_url :: string
  img_x :: "real option"
  img_y :: "real option"
  img_width :: "real option"
  img_height :: "real option"
  img_zIndex :: "real option"

record TextLayer =
  txt_id :: string
  txt_text :: string
  txt_x :: real
  txt_y :: real
  fontSize :: real
  fontFamily :: string
  color :: string
  rotation :: real
  shadow :: bool
  backgroundColor :: string
  backgroundOpacity :: real
  padding :: real

datatype WatermarkPosition = TopLeft | TopRight | BottomLeft | BottomRight | Center

record WatermarkState =
  wm_id :: string
  wm_opacity :: real
  wm_size :: real
  wm_position :: WatermarkPosition

text \<open>
  \<open>BackgroundState\<close> is \<open>{type, value}\<close> with \<open>value: string | ImageState | null\<close>; every
  \<open>setBackground\<close> call pairs type \<open>'color'\<close> with a string and type \<open>'image'\<close> with an
  image or null, so the model is the tagged union.
\<close>

datatype BackgroundState = ColorBg "string option" | ImageBg "ImageState option"

datatype ImageFit = Contain | Cover

text \<open>
  A decoded picture: the preview's \<open>HTMLImageElement\<close> (with its \<open>src\<close>) and the export's
  \<open>ImageBitmap\<close> (whose \<open>bm_src\<close> is not read).
\<close>

record bitmap =
  bm_src :: string
  bm_width :: real
  bm_height :: real

text \<open>The scene: the fields of \<open>WorkerStatePayload\<close>, which are the state the preview reads too.\<close>

record Scene =
  layoutMode :: LayoutMode
  images :: "ImageState list"
  textLayers :: "TextLayer list"
  watermark :: "WatermarkState option"
  background :: BackgroundState
  gap :: real
  globalZoom :: real
  imageFit :: ImageFit
  mainZoom :: real
  bgBlur :: real
  bgOpacity :: real

text \<open>\<open>WorkerBitmapsPayload\<close>, and the preview's three \<open>loaded...\<close> states.\<close>

record Bitmaps =
  bm_grid :: "bitmap list"
  bm_watermark :: "bitmap option"
  bm_background :: "bitmap option"

section \<open>Drawing operations\<close>

text \<open>
  A draw function is modelled by the list of calls it makes on the 2D context, in order.
  \<open>Call_drawImage\<close> is a call of the local helper \<open>drawImage(img, x, y, w, h, extraZoom)\<close>
  that both renderers define; \<open>expand\<close> replaces it by the context calls of the helper's body.
\<close>

datatype op =
    ClearRect real real real real
  | FillStyle string
  | FillRect real real real real
  | DrawImage bitmap real real real real
  | Save
  | Restore
  | BeginPath
  | Rect real real real real
  | Clip
  | FilterBlur real
  | GlobalAlpha real
  | StrokeStyle string
  | LineWidth real
  | StrokeRect real real real real
  | Translate real real
  | Rotate real
  | TextAlign string
  | TextBaseline string
  | Font real string
  | ShadowColor string
  | ShadowBlur real
  | ShadowOffsetX real
  | ShadowOffsetY real
  | FillText string real real
  | Call_drawImage bitmap real real real real real

text \<open>\<open>xs.forEach((x, i) => ...)\<close>: the calls of the callback, from index \<open>i\<close> on.\<close>

fun forEach :: "('a \<Rightarrow> nat \<Rightarrow> op list) \<Rightarrow> 'a list \<Rightarrow> nat \<Rightarrow> op list" where
  "forEach f [] i = []"
| "forEach f (x # xs) i = f x i @ forEach f xs (Suc i)"

section \<open>The helper \<open>drawImage\<close> and the background (same code in both renderers)\<close>

text \<open>
  The value of \<open>w / h\<close> in JavaScript: a number when \<open>h\<close> is not zero, otherwise an
  infinity or NaN. \<open>gt_quot a q\<close> and \<open>lt_quot a q\<close> are \<open>a > q\<close> and \<open>a < q\<close> for a
  finite \<open>a\<close>; a comparison with NaN is false.
\<close>

datatype quot = Fin real | PInf | NInf | NaN

definition js_div :: "real \<Rightarrow> real \<Rightarrow> quot" where
  "js_div w h = (if h \<noteq> 0 then Fin (w / h) else if 0 < w then PInf else if w < 0 then NInf else NaN)"

fun gt_quot :: "real \<Rightarrow> quot \<Rightarrow> bool" where
  "gt_quot a (Fin r) = (a > r)"
| "gt_quot a PInf = False"
| "gt_quot a NInf = True"
| "gt_quot a NaN = False"

fun lt_quot :: "real \<Rightarrow> quot \<Rightarrow> bool" where
  "lt_quot a (Fin r) = (a < r)"
| "lt_quot a PInf = True"
| "lt_quot a NInf = False"
| "lt_quot a NaN = False"

text \<open>
  \<open>drawImage\<close> (App.tsx 250-277, export worker 51-71): clip to the cell, fit the picture by
  height or by width, centre it. The picture is a decoded one, of positive width and height.
\<close>

definition drawImage :: "ImageFit \<Rightarrow> real \<Rightarrow> bitmap \<Rightarrow> real \<Rightarrow> real \<Rightarrow> real \<Rightarrow> real \<Rightarrow> real \<Rightarrow> op list" where
  "drawImage fit gZoom img x y w h extraZoom =
     (let zoom = gZoom * extraZoom;
          imgRatio = bm_width img / bm_height img;
          cellRatio = js_div w h;
          byHeight = (if fit = Cover then gt_quot imgRatio cellRatio else lt_quot imgRatio cellRatio);
          renderH = (if byHeight then h * zoom else (w * zoom) / imgRatio);
          renderW = (if byHeight then (h * zoom) * imgRatio else w * zoom);
          renderX = x + (w - renderW) / 2;
          renderY = y + (h - renderH) / 2
      in [Save, BeginPath, Rect x y w h, Clip, DrawImage img renderX renderY renderW renderH, Restore])"

fun expand :: "ImageFit \<Rightarrow> real \<Rightarrow> op \<Rightarrow> op list" where
  "expand fit gZoom (Call_drawImage img x y w h extraZoom) = drawImage fit gZoom img x y w h extraZoom"
| "expand fit gZoom c = [c]"

definition expandAll :: "ImageFit \<Rightarrow> real \<Rightarrow> op list \<Rightarrow> op list" where
  "expandAll fit gZoom cs = concat (map (expand fit gZoom) cs)"

text \<open>Step 1, \<open>Draw Background\<close> (App.tsx 233-239, export worker 42-48).\<close>

definition backgroundFill :: "BackgroundState \<Rightarrow> string" where
  "backgroundFill bg =
     (case bg of ColorBg (Some v) \<Rightarrow> (if v \<noteq> [] then v else ''#F3F4F6'') | _ \<Rightarrow> ''#F3F4F6'')"

definition isImageBg :: "BackgroundState \<Rightarrow> bool" where
  "isImageBg bg = (case bg of ImageBg _ \<Rightarrow> True | ColorBg _ \<Rightarrow> False)"

definition drawBackground :: "real \<Rightarrow> real \<Rightarrow> BackgroundState \<Rightarrow> bitmap option \<Rightarrow> op list" where
  "drawBackground W H bg loadedBackgroundImage =
     ClearRect 0 0 W H #
     (case loadedBackgroundImage of
        Some b \<Rightarrow> (if isImageBg bg then [DrawImage b 0 0 W H]
                   else [FillStyle (backgroundFill bg), FillRect 0 0 W H])
      | None \<Rightarrow> [FillStyle (backgroundFill bg), FillRect 0 0 W H])"

section \<open>The preview renderer: \<open>drawCanvas\<close> (App.tsx 220-459)\<close>

text \<open>\<open>Math.ceil(Math.sqrt(n))\<close> and \<open>Math.ceil(n / cols)\<close> for a length \<open>n\<close>.\<close>

definition gridCols :: "nat \<Rightarrow> nat" where
  "gridCols n = nat \<lceil>sqrt (real n)\<rceil>"

definition gridRows :: "nat \<Rightarrow> nat \<Rightarrow> nat" where
  "gridRows n cols = nat \<lceil>real n / real cols\<rceil>"

text \<open>\<open>Math.max(1, Math.ceil(Math.sqrt(n)))\<close> and \<open>Math.max(1, Math.ceil(n / cols))\<close>.\<close>

definition bigCols :: "nat \<Rightarrow> nat" where
  "bigCols n = max 1 (nat \<lceil>sqrt (real n)\<rceil>)"

definition bigRows :: "nat \<Rightarrow> nat \<Rightarrow> nat" where
  "bigRows n cols = max 1 (nat \<lceil>real n / real cols\<rceil>)"

text \<open>\<open>a.zIndex || 0\<close>.\<close>

definition zIndexOr0 :: "ImageState \<Rightarrow> real" where
  "zIndexOr0 a = (case img_zIndex a of None \<Rightarrow> 0 | Some z \<Rightarrow> z)"

text \<open>The callback of \<open>case 'grid'\<close> (App.tsx 286-292).\<close>

definition gridCell :: "real \<Rightarrow> real \<Rightarrow> real \<Rightarrow> nat \<Rightarrow> nat \<Rightarrow> bitmap \<Rightarrow> nat \<Rightarrow> op list" where
  "gridCell W H g cols rows img i =
     (let cellWidth = (W - (real cols + 1) * g) / real cols;
          cellHeight = (H - (real rows + 1) * g) / real rows;
          col = i mod cols;
          row = i div cols;
          x = g + real col * (cellWidth + g);
          y = g + real row * (cellHeight + g)
      in [Call_drawImage img x y cellWidth cellHeight 1])"

text \<open>The callback of \<open>case 'left-big'/'right-big'\<close> (App.tsx 314-320).\<close>

definition leftRightCell :: "bool \<Rightarrow> real \<Rightarrow> real \<Rightarrow> real \<Rightarrow> nat \<Rightarrow> nat \<Rightarrow> bitmap \<Rightarrow> nat \<Rightarrow> op list" where
  "leftRightCell isLeftBig W H g cols rows img i =
     (let startX = (if isLeftBig then W / 2 + g / 2 else g);
          availableWidth = W / 2 - g * 1.5;
          cellWidth = (availableWidth - (real cols - 1) * g) / real cols;
          cellHeight = (H - (real rows + 1) * g) / real rows;
          col = i mod cols;
          row = i div cols;
          x = startX + real col * (cellWidth + g);
          y = g + real row * (cellHeight + g)
      in [Call_drawImage img x y cellWidth cellHeight 1])"

text \<open>The callback of \<open>case 'top-big'/'bottom-big'\<close> (App.tsx 343-349).\<close>

definition topBottomCell :: "bool \<Rightarrow> real \<Rightarrow> real \<Rightarrow> real \<Rightarrow> nat \<Rightarrow> nat \<Rightarrow> bitmap \<Rightarrow> nat \<Rightarrow> op list" where
  "topBottomCell isTopBig W H g cols rows img i =
     (let startY = (if isTopBig then H / 2 + g / 2 else g);
          gridHeight = H / 2 - g * 1.5;
          cellWidth = (W - (real cols + 1) * g) / real cols;
          cellHeight = (gridHeight - (real rows - 1) * g) / real rows;
          col = i mod cols;
          row = i div cols;
          x = g + real col * (cellWidth + g);
          y = startY + real row * (cellHeight + g)
      in [Call_drawImage img x y cellWidth cellHeight 1])"

text \<open>The callback of the backdrop of \<open>case 'single-blur'\<close> (App.tsx 363-369).\<close>

definition blurCell :: "real \<Rightarrow> real \<Rightarrow> nat \<Rightarrow> nat \<Rightarrow> bitmap \<Rightarrow> nat \<Rightarrow> op list" where
  "blurCell W H cols rows img i =
     (let cellWidth = W / real cols;
          cellHeight = H / real rows;
          col = i mod cols;
          row = i div cols;
          x = real col * cellWidth;
          y = real row * cellHeight
      in [DrawImage img x y cellWidth cellHeight])"

text \<open>
  The callback of \<open>case 'freeform'\<close> (App.tsx 384-398): the picture is found by its
  \<open>src\<close>; the selected image gets an outline and a handle.
\<close>

definition freeformCell :: "bitmap list \<Rightarrow> string option \<Rightarrow> ImageState \<Rightarrow> nat \<Rightarrow> op list" where
  "freeformCell loadedGridImages selectedImageId imgState i =
     (case (find (\<lambda>li. bm_src li = img_url imgState) loadedGridImages,
            img_x imgState, img_y imgState, img_width imgState, img_height imgState) of
        (Some loadedImg, Some x, Some y, Some w, Some h) \<Rightarrow>
          DrawImage loadedImg x y w h #
          (if Some (img_id imgState) = selectedImageId
           then (let handleSize = 10
                 in [StrokeStyle ''#84cc16'', LineWidth 2, StrokeRect x y w h, FillStyle ''#84cc16'',
                     FillRect (x + w - handleSize / 2) (y + h - handleSize / 2) handleSize handleSize])
           else [])
      | _ \<Rightarrow> [])"

text \<open>
  Step 2, the \<open>switch (layoutMode)\<close> of \<open>drawCanvas\<close> (App.tsx 280-401), with the calls of
  \<open>drawImage\<close> not yet expanded. \<open>W\<close> and \<open>H\<close> are \<open>canvas.width\<close> and \<open>canvas.height\<close>. The
  debounced values are the values of the scene (the scene has been still for 150 ms).
\<close>

definition drawCanvas_layout :: "real \<Rightarrow> real \<Rightarrow> Scene \<Rightarrow> bitmap list \<Rightarrow> string option \<Rightarrow> op list" where
  "drawCanvas_layout W H sc loadedGridImages selectedImageId =
     (let g = gap sc in
      case layoutMode sc of
        Grid \<Rightarrow>
          (let cols = gridCols (length loadedGridImages);
               rows = gridRows (length loadedGridImages) cols
           in forEach (gridCell W H g cols rows) loadedGridImages 0)
      | Freeform \<Rightarrow>
          (let sortedImageStates = sort_key zIndexOr0 (images sc)
           in forEach (freeformCell loadedGridImages selectedImageId) sortedImageStates 0)
      | SingleBlur \<Rightarrow>
          (let bgImages = drop 1 loadedGridImages in
           (if length bgImages > 0
            then (let cols = gridCols (length bgImages);
                      rows = gridRows (length bgImages) cols
                  in [Save, FilterBlur (bgBlur sc), GlobalAlpha (bgOpacity sc)] @
                     forEach (blurCell W H cols rows) bgImages 0 @ [Restore])
            else []) @
           (if length loadedGridImages > 0
            then (let maxW = W * 0.8;
                      maxH = H * 0.9;
                      cellX = (W - maxW) / 2;
                      cellY = (H - maxH) / 2
                  in [Call_drawImage (loadedGridImages ! 0) cellX cellY maxW maxH (mainZoom sc)])
            else []))
      | m \<Rightarrow>
          (if m = LeftBig \<or> m = RightBig
           then
             (let isLeftBig = (m = LeftBig) in
              (if length loadedGridImages > 0
               then (let bigX = (if isLeftBig then g else W / 2 + g / 2);
                         bigW = W / 2 - g * 1.5;
                         bigH = H - g * 2
                     in [Call_drawImage (loadedGridImages ! 0) bigX g bigW bigH 1])
               else []) @
              (if length loadedGridImages > 1
               then (let gridImages = drop 1 loadedGridImages;
                         cols = bigCols (length gridImages);
                         rows = bigRows (length gridImages) cols
                     in forEach (leftRightCell isLeftBig W H g cols rows) gridImages 0)
               else []))
           else
             (let isTopBig = (m = TopBig) in
              (if length loadedGridImages > 0
               then (let bigY = (if isTopBig then g else H / 2 + g / 2);
                         bigW = W - g * 2;
                         bigH = H / 2 - g * 1.5
                     in [Call_drawImage (loadedGridImages ! 0) g bigY bigW bigH 1])
               else []) @
              (if length loadedGridImages > 1
               then (let gridImages = drop 1 loadedGridImages;
                         cols = bigCols (length gridImages);
                         rows = bigRows (length gridImages) cols
                     in forEach (topBottomCell isTopBig W H g cols rows) gridImages 0)
               else []))))"

text \<open>Step 3, \<open>Draw Watermark\<close> (App.tsx 405-423): the rectangle, then the calls.\<close>

definition watermarkRect :: "real \<Rightarrow> real \<Rightarrow> real \<Rightarrow> WatermarkState \<Rightarrow> bitmap \<Rightarrow> real \<times> real \<times> real \<times> real" where
  "watermarkRect W H g wm loadedWatermark =
     (let aspect = bm_width loadedWatermark / bm_height loadedWatermark;
          w = (W / 100) * wm_size wm;
          h = w / aspect;
          margin = g
      in case wm_position wm of
           TopLeft \<Rightarrow> (margin, margin, w, h)
         | TopRight \<Rightarrow> (W - w - margin, margin, w, h)
         | BottomLeft \<Rightarrow> (margin, H - h - margin, w, h)
         | BottomRight \<Rightarrow> (W - w - margin, H - h - margin, w, h)
         | Center \<Rightarrow> ((W - w) / 2, (H - h) / 2, w, h))"

definition drawCanvas_watermark :: "real \<Rightarrow> real \<Rightarrow> Scene \<Rightarrow> bitmap option \<Rightarrow> op list" where
  "drawCanvas_watermark W H sc loadedWatermark =
     (case (watermark sc, loadedWatermark) of
        (Some wm, Some lw) \<Rightarrow>
          (case watermarkRect W H (gap sc) wm lw of
             (x, y, w, h) \<Rightarrow> [Save, GlobalAlpha (wm_opacity wm), DrawImage lw x y w h, Restore])
      | _ \<Rightarrow> [])"

text \<open>
  Step 4, \<open>Draw Text Layers\<close> (App.tsx 426-457). \<open>mt size family text\<close> is the width
  \<open>ctx.measureText(text).width\<close> once \<open>ctx.font\<close> is set to that size and family: a function
  of the browser, a parameter here.
\<close>

definition drawTextLayer :: "(real \<Rightarrow> string \<Rightarrow> string \<Rightarrow> real) \<Rightarrow> TextLayer \<Rightarrow> op list" where
  "drawTextLayer mt layer =
     [Save, Translate (txt_x layer) (txt_y layer), Rotate (rotation layer * pi / 180),
      TextAlign ''center'', TextBaseline ''middle'', Font (fontSize layer) (fontFamily layer)] @
     (if backgroundOpacity layer > 0
      then (let metrics_width = mt (fontSize layer) (fontFamily layer) (txt_text layer);
                rectW = metrics_width + padding layer * 2;
                rectH = fontSize layer + padding layer * 2;
                rectX = - rectW / 2;
                rectY = - rectH / 2
            in [GlobalAlpha (backgroundOpacity layer), FillStyle (backgroundColor layer),
                FillRect rectX rectY rectW rectH, GlobalAlpha 1])
      else []) @
     (if shadow layer
      then [ShadowColor ''rgba(0, 0, 0, 0.75)'', ShadowBlur 10, ShadowOffsetX 5, ShadowOffsetY 5]
      else []) @
     [FillStyle (color layer), FillText (txt_text layer) 0 0, Restore]"

definition drawCanvas_text :: "(real \<Rightarrow> string \<Rightarrow> string \<Rightarrow> real) \<Rightarrow> Scene \<Rightarrow> op list" where
  "drawCanvas_text mt sc = concat (map (drawTextLayer mt) (textLayers sc))"

text \<open>The whole of \<open>drawCanvas\<close>, for a canvas with a 2D context.\<close>

definition drawCanvas ::
  "(real \<Rightarrow> string \<Rightarrow> string \<Rightarrow> real) \<Rightarrow> real \<Rightarrow> real \<Rightarrow> Scene \<Rightarrow> Bitmaps \<Rightarrow> string option \<Rightarrow> op list" where
  "drawCanvas mt W H sc loaded selectedImageId =
     drawBackground W H (background sc) (bm_background loaded) @
     (if length (images sc) = 0 \<and> length (textLayers sc) = 0 \<and> watermark sc = None
      then [FillStyle ''#6b7280'', TextAlign ''center'', Font 24 ''Montserrat'',
            FillText ''Upload images to begin'' (W / 2) (H / 2)]
      else [Save] @
           expandAll (imageFit sc) (globalZoom sc)
             (drawCanvas_layout W H sc (bm_grid loaded) selectedImageId) @
           [Restore] @
           drawCanvas_watermark W H sc (bm_watermark loaded) @
           drawCanvas_text mt sc)"

section \<open>The export renderer: \<open>drawExportCanvas\<close> (export worker 25-241)\<close>

text \<open>The callback of \<open>case 'grid'\<close> (export worker 83-89).\<close>

definition exportGridCell :: "real \<Rightarrow> real \<Rightarrow> real \<Rightarrow> real \<Rightarrow> nat \<Rightarrow> nat \<Rightarrow> bitmap \<Rightarrow> nat \<Rightarrow> op list" where
  "exportGridCell EXPORT_WIDTH EXPORT_HEIGHT exportGapX exportGapY cols rows img i =
     (let cellWidth = (EXPORT_WIDTH - (real cols + 1) * exportGapX) / real cols;
          cellHeight = (EXPORT_HEIGHT - (real rows + 1) * exportGapY) / real rows;
          col = i mod cols;
          row = i div cols;
          x = exportGapX + real col * (cellWidth + exportGapX);
          y = exportGapY + real row * (cellHeight + exportGapY)
      in [Call_drawImage img x y cellWidth cellHeight 1])"

text \<open>The callback of \<open>case 'left-big'/'right-big'\<close> (export worker 109-115).\<close>

definition exportLeftRightCell ::
  "bool \<Rightarrow> real \<Rightarrow> real \<Rightarrow> real \<Rightarrow> real \<Rightarrow> nat \<Rightarrow> nat \<Rightarrow> bitmap \<Rightarrow> nat \<Rightarrow> op list" where
  "exportLeftRightCell isLeftBig EXPORT_WIDTH EXPORT_HEIGHT exportGapX exportGapY cols rows img i =
     (let startX = (if isLeftBig then EXPORT_WIDTH / 2 + exportGapX / 2 else exportGapX);
          availableWidth = EXPORT_WIDTH / 2 - exportGapX * 1.5;
          cellWidth = (availableWidth - (real cols - 1) * exportGapX) / real cols;
          cellHeight = (EXPORT_HEIGHT - (real rows + 1) * exportGapY) / real rows;
          col = i mod cols;
          row = i div cols;
          x = startX + real col * (cellWidth + exportGapX);
          y = exportGapY + real row * (cellHeight + exportGapY)
      in [Call_drawImage img x y cellWidth cellHeight 1])"

text \<open>The callback of \<open>case 'top-big'/'bottom-big'\<close> (export worker 137-143).\<close>

definition exportTopBottomCell ::
  "bool \<Rightarrow> real \<Rightarrow> real \<Rightarrow> real \<Rightarrow> real \<Rightarrow> nat \<Rightarrow> nat \<Rightarrow> bitmap \<Rightarrow> nat \<Rightarrow> op list" where
  "exportTopBottomCell isTopBig EXPORT_WIDTH EXPORT_HEIGHT exportGapX exportGapY cols rows img i =
     (let startY = (if isTopBig then EXPORT_HEIGHT / 2 + exportGapY / 2 else exportGapY);
          gridHeight = EXPORT_HEIGHT / 2 - exportGapY * 1.5;
          cellWidth = (EXPORT_WIDTH - (real cols + 1) * exportGapX) / real cols;
          cellHeight = (gridHeight - (real rows - 1) * exportGapY) / real rows;
          col = i mod cols;
          row = i div cols;
          x = exportGapX + real col * (cellWidth + exportGapX);
          y = startY + real row * (cellHeight + exportGapY)
      in [Call_drawImage img x y cellWidth cellHeight 1])"

text \<open>The callback of the backdrop of \<open>case 'single-blur'\<close> (export worker 157-161).\<close>

definition exportBlurCell :: "real \<Rightarrow> real \<Rightarrow> nat \<Rightarrow> nat \<Rightarrow> bitmap \<Rightarrow> nat \<Rightarrow> op list" where
  "exportBlurCell EXPORT_WIDTH EXPORT_HEIGHT cols rows img i =
     (let cellWidth = EXPORT_WIDTH / real cols;
          cellHeight = EXPORT_HEIGHT / real rows;
          col = i mod cols;
          row = i div cols
      in [DrawImage img (real col * cellWidth) (real row * cellHeight) cellWidth cellHeight])"

text \<open>\<open>xs.findIndex(p)\<close>; \<open>None\<close> is the result -1.\<close>

fun findIndex :: "('a \<Rightarrow> bool) \<Rightarrow> 'a list \<Rightarrow> nat option" where
  "findIndex p [] = None"
| "findIndex p (x # xs) = (if p x then Some 0 else map_option Suc (findIndex p xs))"

text \<open>\<open>xs[k]\<close> for the result of \<open>findIndex\<close>: \<open>undefined\<close> at -1 and past the end.\<close>

definition at_index :: "'a list \<Rightarrow> nat option \<Rightarrow> 'a option" where
  "at_index xs k = (case k of None \<Rightarrow> None | Some j \<Rightarrow> (if j < length xs then Some (xs ! j) else None))"

text \<open>
  The callback of \<open>case 'freeform'\<close> (export worker 175-180): the picture is found by the
  position of the image's id in \<open>images\<close>.
\<close>

definition exportFreeformCell ::
  "real \<Rightarrow> real \<Rightarrow> ImageState list \<Rightarrow> bitmap list \<Rightarrow> ImageState \<Rightarrow> nat \<Rightarrow> op list" where
  "exportFreeformCell scaleX scaleY imgs loadedGridImages imgState index =
     (case (at_index loadedGridImages (findIndex (\<lambda>i. img_id i = img_id imgState) imgs),
            img_x imgState, img_y imgState, img_width imgState, img_height imgState) of
        (Some loadedImg, Some x, Some y, Some w, Some h) \<Rightarrow>
          [DrawImage loadedImg (x * scaleX) (y * scaleY) (w * scaleX) (h * scaleY)]
      | _ \<Rightarrow> [])"

text \<open>Step 2, the \<open>switch (layoutMode)\<close> of \<open>drawExportCanvas\<close> (export worker 77-183).\<close>

definition drawExportCanvas_layout ::
  "real \<Rightarrow> real \<Rightarrow> real \<Rightarrow> real \<Rightarrow> Scene \<Rightarrow> bitmap list \<Rightarrow> op list" where
  "drawExportCanvas_layout EXPORT_WIDTH EXPORT_HEIGHT scaleX scaleY st loadedGridImages =
     (let exportGapX = gap st * scaleX;
          exportGapY = gap st * scaleY in
      case layoutMode st of
        Grid \<Rightarrow>
          (let cols = gridCols (length loadedGridImages);
               rows = gridRows (length loadedGridImages) cols
           in forEach (exportGridCell EXPORT_WIDTH EXPORT_HEIGHT exportGapX exportGapY cols rows)
                loadedGridImages 0)
      | Freeform \<Rightarrow>
          (let sortedImageStates = sort_key zIndexOr0 (images st)
           in forEach (exportFreeformCell scaleX scaleY (images st) loadedGridImages)
                sortedImageStates 0)
      | SingleBlur \<Rightarrow>
          (let bgImages = drop 1 loadedGridImages in
           (if length bgImages > 0
            then (let cols = gridCols (length bgImages);
                      rows = gridRows (length bgImages) cols
                  in [Save, FilterBlur (bgBlur st * scaleX), GlobalAlpha (bgOpacity st)] @
                     forEach (exportBlurCell EXPORT_WIDTH EXPORT_HEIGHT cols rows) bgImages 0 @
                     [Restore])
            else []) @
           (if length loadedGridImages > 0
            then (let maxW = EXPORT_WIDTH * 0.8;
                      maxH = EXPORT_HEIGHT * 0.9;
                      cellX = (EXPORT_WIDTH - maxW) / 2;
                      cellY = (EXPORT_HEIGHT - maxH) / 2
                  in [Call_drawImage (loadedGridImages ! 0) cellX cellY maxW maxH (mainZoom st)])
            else []))
      | m \<Rightarrow>
          (if m = LeftBig \<or> m = RightBig
           then
             (let isLeftBig = (m = LeftBig) in
              (if length loadedGridImages > 0
               then (let bigX = (if isLeftBig then exportGapX else EXPORT_WIDTH / 2 + exportGapX / 2);
                         bigW = EXPORT_WIDTH / 2 - exportGapX * 1.5;
                         bigH = EXPORT_HEIGHT - exportGapY * 2
                     in [Call_drawImage (loadedGridImages ! 0) bigX exportGapY bigW bigH 1])
               else []) @
              (if length loadedGridImages > 1
               then (let gridImages = drop 1 loadedGridImages;
                         cols = bigCols (length gridImages);
                         rows = bigRows (length gridImages) cols
                     in forEach (exportLeftRightCell isLeftBig EXPORT_WIDTH EXPORT_HEIGHT
                                   exportGapX exportGapY cols rows) gridImages 0)
               else []))
           else
             (let isTopBig = (m = TopBig) in
              (if length loadedGridImages > 0
               then (let bigY = (if isTopBig then exportGapY else EXPORT_HEIGHT / 2 + exportGapY / 2);
                         bigW = EXPORT_WIDTH - exportGapX * 2;
                         bigH = EXPORT_HEIGHT / 2 - exportGapY * 1.5
                     in [Call_drawImage (loadedGridImages ! 0) exportGapX bigY bigW bigH 1])
               else []) @
              (if length loadedGridImages > 1
               then (let gridImages = drop 1 loadedGridImages;
                         cols = bigCols (length gridImages);
                         rows = bigRows (length gridImages) cols
                     in forEach (exportTopBottomCell isTopBig EXPORT_WIDTH EXPORT_HEIGHT
                                   exportGapX exportGapY cols rows) gridImages 0)
               else []))))"

text \<open>Step 3, \<open>Draw Watermark\<close> (export worker 186-204).\<close>

definition exportWatermarkRect ::
  "real \<Rightarrow> real \<Rightarrow> real \<Rightarrow> real \<Rightarrow> WatermarkState \<Rightarrow> bitmap \<Rightarrow> real \<times> real \<times> real \<times> real" where
  "exportWatermarkRect EXPORT_WIDTH EXPORT_HEIGHT exportGapX exportGapY wm bmp =
     (let aspect = bm_width bmp / bm_height bmp;
          w = (EXPORT_WIDTH / 100) * wm_size wm;
          h = w / aspect;
          marginX = exportGapX;
          marginY = exportGapY
      in case wm_position wm of
           TopLeft \<Rightarrow> (marginX, marginY, w, h)
         | TopRight \<Rightarrow> (EXPORT_WIDTH - w - marginX, marginY, w, h)
         | BottomLeft \<Rightarrow> (marginX, EXPORT_HEIGHT - h - marginY, w, h)
         | BottomRight \<Rightarrow> (EXPORT_WIDTH - w - marginX, EXPORT_HEIGHT - h - marginY, w, h)
         | Center \<Rightarrow> ((EXPORT_WIDTH - w) / 2, (EXPORT_HEIGHT - h) / 2, w, h))"

definition drawExportCanvas_watermark ::
  "real \<Rightarrow> real \<Rightarrow> real \<Rightarrow> real \<Rightarrow> Scene \<Rightarrow> bitmap option \<Rightarrow> op list" where
  "drawExportCanvas_watermark EXPORT_WIDTH EXPORT_HEIGHT scaleX scaleY st bmp =
     (case (watermark st, bmp) of
        (Some wm, Some b) \<Rightarrow>
          (case exportWatermarkRect EXPORT_WIDTH EXPORT_HEIGHT (gap st * scaleX) (gap st * scaleY) wm b of
             (x, y, w, h) \<Rightarrow> [Save, GlobalAlpha (wm_opacity wm), DrawImage b x y w h, Restore])
      | _ \<Rightarrow> [])"

text \<open>
  Step 4, \<open>Draw Text Layers\<close> (export worker 207-240). The export sets \<open>ctx.font\<close> to
  the scaled size and the family in single quotes (line 220), so the family of its \<open>Font\<close>
  call, and the font its text is measured in, is the quoted name.
\<close>

definition quoteFamily :: "string \<Rightarrow> string" where
  "quoteFamily family = CHR 0x27 # family @ [CHR 0x27]"

definition drawExportTextLayer ::
  "(real \<Rightarrow> string \<Rightarrow> string \<Rightarrow> real) \<Rightarrow> real \<Rightarrow> real \<Rightarrow> TextLayer \<Rightarrow> op list" where
  "drawExportTextLayer mt scaleX scaleY layer =
     (let scaledFontSize = fontSize layer * scaleY;
          scaledPadding = padding layer * scaleY in
      [Save, Translate (txt_x layer * scaleX) (txt_y layer * scaleY), Rotate (rotation layer * pi / 180),
       TextAlign ''center'', TextBaseline ''middle'',
       Font scaledFontSize (quoteFamily (fontFamily layer))] @
      (if backgroundOpacity layer > 0
       then (let metrics_width = mt scaledFontSize (quoteFamily (fontFamily layer)) (txt_text layer);
                 rectW = metrics_width + scaledPadding * 2;
                 rectH = scaledFontSize + scaledPadding * 2
             in [GlobalAlpha (backgroundOpacity layer), FillStyle (backgroundColor layer),
                 FillRect (- rectW / 2) (- rectH / 2) rectW rectH, GlobalAlpha 1])
       else []) @
      (if shadow layer
       then [ShadowColor ''rgba(0, 0, 0, 0.75)'', ShadowBlur (10 * scaleY),
             ShadowOffsetX (5 * scaleX), ShadowOffsetY (5 * scaleY)]
       else []) @
      [FillStyle (color layer), FillText (txt_text layer) 0 0, Restore])"

text \<open>
  The loop \<open>for (const layer of textLayers)\<close>. Before it draws a layer it awaits
  \<open>self.fonts.load\<close> of the scaled size and the (unquoted) family (line 210);
  \<open>fontLoads size family\<close> tells whether that promise is fulfilled. When it is rejected the
  function throws: the worker posts an error and no image (lines 19-22), and the calls made
  so far are lost with the canvas.
\<close>

datatype export_error = FontLoadRejected real string

fun drawExportCanvas_text ::
  "(real \<Rightarrow> string \<Rightarrow> bool) \<Rightarrow> (real \<Rightarrow> string \<Rightarrow> string \<Rightarrow> real) \<Rightarrow> real \<Rightarrow> real \<Rightarrow>
   TextLayer list \<Rightarrow> export_error + op list" where
  "drawExportCanvas_text fontLoads mt scaleX scaleY [] = Inr []"
| "drawExportCanvas_text fontLoads mt scaleX scaleY (layer # rest) =
     (if fontLoads (fontSize layer * scaleY) (fontFamily layer)
      then (case drawExportCanvas_text fontLoads mt scaleX scaleY rest of
              Inl e \<Rightarrow> Inl e
            | Inr calls \<Rightarrow> Inr (drawExportTextLayer mt scaleX scaleY layer @ calls))
      else Inl (FontLoadRejected (fontSize layer * scaleY) (fontFamily layer)))"

text \<open>
  The whole of \<open>drawExportCanvas\<close>, for a canvas with a 2D context; \<open>srcW\<close> and \<open>srcH\<close> are
  \<open>sourceDimensions\<close>, the size of the preview canvas when the export was started. The
  result is the list of calls of a drawing that reached its end, or the error.
\<close>

definition drawExportCanvas ::
  "(real \<Rightarrow> string \<Rightarrow> bool) \<Rightarrow> (real \<Rightarrow> string \<Rightarrow> string \<Rightarrow> real) \<Rightarrow>
   real \<Rightarrow> real \<Rightarrow> real \<Rightarrow> real \<Rightarrow> Scene \<Rightarrow> Bitmaps \<Rightarrow> export_error + op list" where
  "drawExportCanvas fontLoads mt EXPORT_WIDTH EXPORT_HEIGHT srcW srcH st bitmaps =
     (let scaleX = EXPORT_WIDTH / srcW;
          scaleY = EXPORT_HEIGHT / srcH
      in case drawExportCanvas_text fontLoads mt scaleX scaleY (textLayers st) of
           Inl e \<Rightarrow> Inl e
         | Inr textCalls \<Rightarrow>
             Inr (drawBackground EXPORT_WIDTH EXPORT_HEIGHT (background st) (bm_background bitmaps) @
                  expandAll (imageFit st) (globalZoom st)
                    (drawExportCanvas_layout EXPORT_WIDTH EXPORT_HEIGHT scaleX scaleY st
                       (bm_grid bitmaps)) @
                  drawExportCanvas_watermark EXPORT_WIDTH EXPORT_HEIGHT scaleX scaleY st
                    (bm_watermark bitmaps) @
                  textCalls))"

section \<open>Images: upload and z-order (App.tsx 145-160, 522-533)\<close>

text \<open>\<open>xs.map((x, index) => ...)\<close>, from index \<open>i\<close> on.\<close>

fun mapIndex :: "('a \<Rightarrow> nat \<Rightarrow> 'b) \<Rightarrow> 'a list \<Rightarrow> nat \<Rightarrow> 'b list" where
  "mapIndex f [] i = []"
| "mapIndex f (x # xs) i = f x i # mapIndex f xs (Suc i)"

text \<open>
  \<open>handleImageUpload\<close>. A file comes with the two values the browser makes for it:
  \<open>self.crypto.randomUUID()\<close> and \<open>URL.createObjectURL(file)\<close>. In
  \<open>images.length > 0 ? Math.max(...) : 0\<close> the maximum is taken of a non-empty list.
  \<open>images\<close> is the list the handler was created with, which is the current list.
\<close>

definition newImage :: "ImageState list \<Rightarrow> string \<times> string \<Rightarrow> nat \<Rightarrow> ImageState" where
  "newImage imgs file index =
     \<lparr> img_id = fst file, img_url = snd file,
       img_x = Some (50 + real index * 30),
       img_y = Some (50 + real index * 30),
       img_width = Some 300,
       img_height = Some 200,
       img_zIndex = Some ((case map zIndexOr0 imgs of [] \<Rightarrow> 0 | z # zs \<Rightarrow> fold max zs z)
                          + real index + 1) \<rparr>"

definition handleImageUpload :: "ImageState list \<Rightarrow> (string \<times> string) list \<Rightarrow> ImageState list" where
  "handleImageUpload imgs files = (let newImages = mapIndex (newImage imgs) files 0 in imgs @ newImages)"

text \<open>\<open>bringToFront\<close> and \<open>sendToBack\<close>: \<open>Math.max(0, ...zs)\<close> and \<open>Math.min(0, ...zs)\<close>.\<close>

definition bringToFront :: "string \<Rightarrow> ImageState list \<Rightarrow> ImageState list" where
  "bringToFront ident prev =
     (let maxZ = fold max (map zIndexOr0 prev) 0
      in map (\<lambda>img. if img_id img = ident then img\<lparr>img_zIndex := Some (maxZ + 1)\<rparr> else img) prev)"

definition sendToBack :: "string \<Rightarrow> ImageState list \<Rightarrow> ImageState list" where
  "sendToBack ident prev =
     (let minZ = fold min (map zIndexOr0 prev) 0
      in map (\<lambda>img. if img_id img = ident then img\<lparr>img_zIndex := Some (minZ - 1)\<rparr> else img) prev)"

section \<open>Pointer interaction (App.tsx 536-700)\<close>

datatype IMode = Idle | Dragging | ResizingBr

datatype ITarget = TText | TImage

record InteractionState =
  ist_mode :: IMode
  ist_target :: "ITarget option"
  ist_id :: "string option"
  ist_offsetX :: "real option"
  ist_offsetY :: "real option"

text \<open>The state the handlers read and set: the scene and the selection.\<close>

record AppState = Scene +
  selectedTextId :: "string option"
  selectedImageId :: "string option"
  interactionState :: InteractionState

definition idleState :: InteractionState where
  "idleState = \<lparr> ist_mode = Idle, ist_target = None, ist_id = None,
                 ist_offsetX = None, ist_offsetY = None \<rparr>"

text \<open>The test of one text layer in \<open>handleMouseDown\<close> (App.tsx 547-561).\<close>

definition hitText :: "(real \<Rightarrow> string \<Rightarrow> string \<Rightarrow> real) \<Rightarrow> TextLayer \<Rightarrow> real \<Rightarrow> real \<Rightarrow> bool" where
  "hitText mt layer mouseX mouseY =
     (let textWidth = mt (fontSize layer) (fontFamily layer) (txt_text layer) + padding layer * 2;
          textHeight = fontSize layer + padding layer * 2;
          angle = rotation layer * pi / 180;
          c = cos (- angle);
          s = sin (- angle);
          dx = mouseX - txt_x layer;
          dy = mouseY - txt_y layer;
          rotatedX = dx * c - dy * s;
          rotatedY = dx * s + dy * c
      in \<bar>rotatedX\<bar> < textWidth / 2 \<and> \<bar>rotatedY\<bar> < textHeight / 2)"

text \<open>
  The loop \<open>for (let i = textLayers.length - 1; i >= 0; i--)\<close>, over the layers from the
  last one down: the first layer hit.
\<close>

fun textHitLoop :: "(real \<Rightarrow> string \<Rightarrow> string \<Rightarrow> real) \<Rightarrow> real \<Rightarrow> real \<Rightarrow> TextLayer list \<Rightarrow> TextLayer option" where
  "textHitLoop mt mouseX mouseY [] = None"
| "textHitLoop mt mouseX mouseY (layer # below) =
     (if hitText mt layer mouseX mouseY then Some layer else textHitLoop mt mouseX mouseY below)"

text \<open>
  The loop \<open>for (const img of sortedImages)\<close> (App.tsx 581-603): the image clicked and the
  mode, or \<open>None\<close> when \<open>clickedImage\<close> stays null.
\<close>

fun imageHitLoop :: "string option \<Rightarrow> real \<Rightarrow> real \<Rightarrow> ImageState list \<Rightarrow> (ImageState \<times> IMode) option" where
  "imageHitLoop selId mouseX mouseY [] = None"
| "imageHitLoop selId mouseX mouseY (img # rest) =
     (case (img_x img, img_y img, img_width img, img_height img) of
        (Some x, Some y, Some w, Some h) \<Rightarrow>
          (let handleSize = 12;
               brHandleX = x + w;
               brHandleY = y + h
           in if Some (img_id img) = selId \<and>
                 mouseX \<ge> brHandleX - handleSize \<and> mouseX \<le> brHandleX + handleSize \<and>
                 mouseY \<ge> brHandleY - handleSize \<and> mouseY \<le> brHandleY + handleSize
              then Some (img, ResizingBr)
              else if mouseX > x \<and> mouseX < x + w \<and> mouseY > y \<and> mouseY < y + h
              then Some (img, Dragging)
              else imageHitLoop selId mouseX mouseY rest)
      | _ \<Rightarrow> imageHitLoop selId mouseX mouseY rest)"

text \<open>\<open>mouseX - clickedImage.x\<close>; \<open>None\<close> is NaN, which \<open>offsetX || 0\<close> reads as 0.\<close>

definition minusOpt :: "real \<Rightarrow> real option \<Rightarrow> real option" where
  "minusOpt a b = (case b of None \<Rightarrow> None | Some v \<Rightarrow> Some (a - v))"

definition orZero :: "real option \<Rightarrow> real" where
  "orZero a = (case a of None \<Rightarrow> 0 | Some v \<Rightarrow> v)"

text \<open>\<open>handleMouseDown\<close>, for a canvas with a 2D context; the pointer is in canvas coordinates.\<close>

definition handleMouseDown ::
  "(real \<Rightarrow> string \<Rightarrow> string \<Rightarrow> real) \<Rightarrow> AppState \<Rightarrow> real \<Rightarrow> real \<Rightarrow> AppState" where
  "handleMouseDown mt s mouseX mouseY =
     (case textHitLoop mt mouseX mouseY (rev (textLayers s)) of
        Some layer \<Rightarrow>
          s\<lparr> selectedTextId := Some (txt_id layer),
             selectedImageId := None,
             interactionState :=
               \<lparr> ist_mode = Dragging, ist_target = Some TText, ist_id = Some (txt_id layer),
                 ist_offsetX = Some (mouseX - txt_x layer),
                 ist_offsetY = Some (mouseY - txt_y layer) \<rparr> \<rparr>
      | None \<Rightarrow>
          (if layoutMode s = Freeform
           then
             (let sortedImages = sort_key (\<lambda>a. - zIndexOr0 a) (images s) in
              case imageHitLoop (selectedImageId s) mouseX mouseY sortedImages of
                Some (clickedImage, clickMode) \<Rightarrow>
                  s\<lparr> images := (if clickMode = Dragging
                                 then bringToFront (img_id clickedImage) (images s)
                                 else images s),
                     selectedTextId := None,
                     selectedImageId := Some (img_id clickedImage),
                     interactionState :=
                       \<lparr> ist_mode = clickMode, ist_target = Some TImage,
                         ist_id = Some (img_id clickedImage),
                         ist_offsetX = minusOpt mouseX (img_x clickedImage),
                         ist_offsetY = minusOpt mouseY (img_y clickedImage) \<rparr> \<rparr>
              | None \<Rightarrow>
                  s\<lparr> selectedTextId := None, selectedImageId := None,
                     interactionState := idleState \<rparr>)
           else s\<lparr> selectedImageId := None, selectedTextId := None \<rparr>))"

text \<open>
  \<open>handleMouseMove\<close>: the state update of the animation-frame callback (App.tsx 668-687);
  the cursor style is not modelled. \<open>interactionState.id\<close> is tested for truth: a string
  that is not empty.
\<close>

definition truthyId :: "string option \<Rightarrow> bool" where
  "truthyId i = (case i of None \<Rightarrow> False | Some v \<Rightarrow> v \<noteq> [])"

definition moveTextLayer :: "InteractionState \<Rightarrow> real \<Rightarrow> real \<Rightarrow> TextLayer \<Rightarrow> TextLayer" where
  "moveTextLayer ist mouseX mouseY layer =
     (if Some (txt_id layer) = ist_id ist
      then layer\<lparr> txt_x := mouseX - orZero (ist_offsetX ist),
                  txt_y := mouseY - orZero (ist_offsetY ist) \<rparr>
      else layer)"

definition moveImage :: "InteractionState \<Rightarrow> real \<Rightarrow> real \<Rightarrow> ImageState \<Rightarrow> ImageState" where
  "moveImage ist mouseX mouseY img =
     (if Some (img_id img) \<noteq> ist_id ist then img
      else if ist_mode ist = Dragging
      then img\<lparr> img_x := Some (mouseX - orZero (ist_offsetX ist)),
                img_y := Some (mouseY - orZero (ist_offsetY ist)) \<rparr>
      else (case (ist_mode ist, img_x img, img_y img) of
              (ResizingBr, Some x, Some y) \<Rightarrow>
                (let newWidth = max 20 (mouseX - x);
                     newHeight = max 20 (mouseY - y)
                 in img\<lparr> img_width := Some newWidth, img_height := Some newHeight \<rparr>)
            | _ \<Rightarrow> img))"

definition handleMouseMove :: "AppState \<Rightarrow> real \<Rightarrow> real \<Rightarrow> AppState" where
  "handleMouseMove s mouseX mouseY =
     (let ist = interactionState s in
      if ist_mode ist = Idle then s
      else if ist_target ist = Some TText \<and> truthyId (ist_id ist)
      then s\<lparr> textLayers := map (moveTextLayer ist mouseX mouseY) (textLayers s) \<rparr>
      else if ist_target ist = Some TImage \<and> truthyId (ist_id ist)
      then s\<lparr> images := map (moveImage ist mouseX mouseY) (images s) \<rparr>
      else s)"

definition handleMouseUp :: "AppState \<Rightarrow> AppState" where
  "handleMouseUp s = s\<lparr> interactionState := idleState \<rparr>"

section \<open>The layout of the big modes as the specification words it\<close>

text \<open>
  The specification's left-big/right-big: the first picture on a column of width
  \<open>W/2 - 1.5 g\<close> and height \<open>H - 2 g\<close> on the named side, the others by the algorithm of grid
  mode (\<open>gridCell\<close>, with \<open>cols + 1\<close> gaps across the width) on a canvas that is the other
  half-width column: \<open>W/2\<close> wide, \<open>H\<close> high, at \<open>x = W/2\<close> for left-big and at \<open>x = 0\<close> for
  right-big.
\<close>

fun shiftX :: "real \<Rightarrow> op \<Rightarrow> op" where
  "shiftX d (Call_drawImage img x y w h z) = Call_drawImage img (x + d) y w h z"
| "shiftX d c = c"

definition spec_leftRightBig :: "bool \<Rightarrow> real \<Rightarrow> real \<Rightarrow> real \<Rightarrow> bitmap list \<Rightarrow> op list" where
  "spec_leftRightBig isLeftBig W H g loaded =
     (let n = length loaded - 1;
          cols = gridCols n;
          rows = gridRows n cols
      in Call_drawImage (loaded ! 0) (if isLeftBig then g else W / 2 + g / 2) g
           (W / 2 - 1.5 * g) (H - 2 * g) 1 #
         map (shiftX (if isLeftBig then W / 2 else 0))
           (forEach (gridCell (W / 2) H g cols rows) (drop 1 loaded) 0))"

section \<open>Sequences of pointer events\<close>

text \<open>
  The canvas element binds \<open>onMouseDown\<close>, \<open>onMouseMove\<close>, and \<open>onMouseUp\<close> and
  \<open>onMouseLeave\<close> (both \<open>handleMouseUp\<close>) (App.tsx 972-979); \<open>run\<close> feeds a list of such
  events to the handlers, each move having its animation frame before the next event.
\<close>

datatype pointer_event = Down real real | Move real real | Up

fun step :: "(real \<Rightarrow> string \<Rightarrow> string \<Rightarrow> real) \<Rightarrow> AppState \<Rightarrow> pointer_event \<Rightarrow> AppState" where
  "step mt s (Down x y) = handleMouseDown mt s x y"
| "step mt s (Move x y) = handleMouseMove s x y"
| "step mt s Up = handleMouseUp s"



section \<open>Scaling a drawing, as the specification words it\<close>

text \<open>
  The specification's scaling of a drawing from the preview size to the export size: every
  horizontal length or position is multiplied by \<open>scaleX\<close> and every vertical one by
  \<open>scaleY\<close>. The font size and the shadow blur go with \<open>scaleY\<close> and the backdrop's blur
  radius with \<open>scaleX\<close>; colours, opacities, the rotation and the extra zoom of \<open>drawImage\<close>
  are no lengths and stay.
\<close>

fun spec_scale :: "real \<Rightarrow> real \<Rightarrow> op \<Rightarrow> op" where
  "spec_scale sx sy (ClearRect x y w h) = ClearRect (x * sx) (y * sy) (w * sx) (h * sy)"
| "spec_scale sx sy (FillRect x y w h) = FillRect (x * sx) (y * sy) (w * sx) (h * sy)"
| "spec_scale sx sy (DrawImage img x y w h) = DrawImage img (x * sx) (y * sy) (w * sx) (h * sy)"
| "spec_scale sx sy (Rect x y w h) = Rect (x * sx) (y * sy) (w * sx) (h * sy)"
| "spec_scale sx sy (StrokeRect x y w h) = StrokeRect (x * sx) (y * sy) (w * sx) (h * sy)"
| "spec_scale sx sy (Call_drawImage img x y w h z) =
     Call_drawImage img (x * sx) (y * sy) (w * sx) (h * sy) z"
| "spec_scale sx sy (Translate x y) = Translate (x * sx) (y * sy)"
| "spec_scale sx sy (FillText t x y) = FillText t (x * sx) (y * sy)"
| "spec_scale sx sy (FilterBlur r) = FilterBlur (r * sx)"
| "spec_scale sx sy (LineWidth w) = LineWidth (w * sx)"
| "spec_scale sx sy (Font s f) = Font (s * sy) f"
| "spec_scale sx sy (ShadowBlur b) = ShadowBlur (b * sy)"
| "spec_scale sx sy (ShadowOffsetX v) = ShadowOffsetX (v * sx)"
| "spec_scale sx sy (ShadowOffsetY v) = ShadowOffsetY (v * sy)"
| "spec_scale sx sy c = c"

fun is_FillRect :: "op \<Rightarrow> bool" where
  "is_FillRect (FillRect x y w h) = True"
| "is_FillRect c = False"

text \<open>A \<open>Font\<close> call with its family written in single quotes, as the export writes it.\<close>

fun quoteFont :: "op \<Rightarrow> op" where
  "quoteFont (Font s f) = Font s (quoteFamily f)"
| "quoteFont c = c"

text \<open>
  The decoded pictures once the preload effect has run (App.tsx 191-198), which is also how
  the export's bitmaps are made (App.tsx 719): one picture per image, in the order of
  \<open>images\<close>, with the image's URL as \<open>src\<close>; ids and URLs are fresh for every image.
\<close>

definition aligned :: "ImageState list \<Rightarrow> bitmap list \<Rightarrow> bool" where
  "aligned imgs loaded \<longleftrightarrow>
     length loaded = length imgs
     \<and> (\<forall>k<length imgs. bm_src (loaded ! k) = img_url (imgs ! k))
     \<and> distinct (map img_url imgs)
     \<and> distinct (map img_id imgs)"

section \<open>Example states\<close>

definition resizeDemo :: AppState where
  "resizeDemo = \<lparr> layoutMode = Freeform,
      images = [\<lparr> img_id = ''a'', img_url = ''u'', img_x = Some 50, img_y = Some 50,
                  img_width = Some 300, img_height = Some 200, img_zIndex = Some 1 \<rparr>],
      textLayers = [], watermark = None, background = ColorBg (Some ''#F3F4F6''), gap = 16,
      globalZoom = 1, imageFit = Cover, mainZoom = 1, bgBlur = 10, bgOpacity = 0.3,
      selectedTextId = None, selectedImageId = Some ''a'',
      interactionState = \<lparr> ist_mode = ResizingBr, ist_target = Some TImage, ist_id = Some ''a'',
                            ist_offsetX = Some 300, ist_offsetY = Some 200 \<rparr> \<rparr>"

definition zDemo :: "ImageState list" where
  "zDemo = [\<lparr> img_id = ''a'', img_url = ''ua'', img_x = Some 50, img_y = Some 50,
               img_width = Some 300, img_height = Some 200, img_zIndex = Some 1 \<rparr>,
            \<lparr> img_id = ''b'', img_url = ''ub'', img_x = Some 80, img_y = Some 80,
               img_width = Some 300, img_height = Some 200, img_zIndex = Some 2 \<rparr>,
            \<lparr> img_id = ''c'', img_url = ''uc'', img_x = None, img_y = None,
               img_width = None, img_height = None, img_zIndex = None \<rparr>]"

definition uploadDemo :: "ImageState list" where
  "uploadDemo = handleImageUpload zDemo [(''d'', ''ud''), (''e'', ''ue'')]"

definition gridDemo :: Scene where
  "gridDemo = \<lparr> layoutMode = Grid, images = [], textLayers = [], watermark = None,
      background = ColorBg (Some ''#F3F4F6''), gap = 16, globalZoom = 1, imageFit = Cover,
      mainZoom = 1, bgBlur = 10, bgOpacity = 0.3 \<rparr>"

definition pic :: "string \<Rightarrow> bitmap" where
  "pic name = \<lparr> bm_src = name, bm_width = 400, bm_height = 300 \<rparr>"

definition leftBigDemo :: Scene where
  "leftBigDemo = gridDemo \<lparr> layoutMode := LeftBig \<rparr>"

definition topBigDemo :: Scene where
  "topBigDemo = gridDemo \<lparr> layoutMode := TopBig \<rparr>"

definition demoMeasure :: "real \<Rightarrow> string \<Rightarrow> string \<Rightarrow> real" where
  "demoMeasure fsize family txt = fsize * real (length txt) / 2"

definition textDemo :: TextLayer where
  "textDemo = \<lparr> txt_id = ''t'', txt_text = ''New Text'', txt_x = 100, txt_y = 100,
      fontSize = 48, fontFamily = ''Montserrat'', color = ''#FFFFFF'', rotation = 90,
      shadow = True, backgroundColor = ''#000000'', backgroundOpacity = 0.5, padding = 10 \<rparr>"


definition freeImages :: "ImageState list" where
  "freeImages =
     [\<lparr> img_id = ''b'', img_url = ''ub'', img_x = Some 80, img_y = Some 80,
         img_width = Some 300, img_height = Some 200, img_zIndex = Some 2 \<rparr>,
      \<lparr> img_id = ''a'', img_url = ''ua'', img_x = Some 50, img_y = Some 50,
         img_width = Some 300, img_height = Some 200, img_zIndex = Some 1 \<rparr>,
      \<lparr> img_id = ''c'', img_url = ''uc'', img_x = None, img_y = None,
         img_width = None, img_height = None, img_zIndex = None \<rparr>,
      \<lparr> img_id = ''d'', img_url = ''ud'', img_x = Some 110, img_y = Some 110,
         img_width = Some 300, img_height = Some 200, img_zIndex = Some 1 \<rparr>]"

definition freeDemo :: Scene where
  "freeDemo = gridDemo \<lparr> layoutMode := Freeform, images := freeImages \<rparr>"

definition wmDemo :: Scene where
  "wmDemo = gridDemo \<lparr> watermark :=
      Some \<lparr> wm_id = ''w'', wm_opacity = 0.5, wm_size = 20, wm_position = BottomRight \<rparr> \<rparr>"

definition c1Demo :: Scene where
  "c1Demo = freeDemo \<lparr> textLayers := [textDemo], watermark :=
      Some \<lparr> wm_id = ''w'', wm_opacity = 0.5, wm_size = 20, wm_position = BottomRight \<rparr> \<rparr>"

definition c1Bitmaps :: Bitmaps where
  "c1Bitmaps = \<lparr> bm_grid = [pic ''ub'', pic ''ua'', pic ''uc'', pic ''ud''],
                  bm_watermark = Some (pic ''w''), bm_background = None \<rparr>"


definition demoFontLoads :: "real \<Rightarrow> string \<Rightarrow> bool" where
  "demoFontLoads fsize family = (family = ''Montserrat'')"

section \<open>Resizing a free-placement image\<close>

lemma moveImage_resize:
  assumes "ist_mode ist = ResizingBr" "ist_id ist = Some (img_id img)"
      and "img_x img = Some x" "img_y img = Some y"
  shows "moveImage ist mouseX mouseY img =
         img\<lparr> img_width := Some (max 20 (mouseX - x)), img_height := Some (max 20 (mouseY - y)) \<rparr>"
  using assms by (simp add: moveImage_def Let_def)

text \<open>
  C4. While a resize is in progress (mode \<open>resizing-br\<close>, target an image with a position),
  a pointer move to \<open>(mouseX, mouseY)\<close> sets the image's width to \<open>max 20 (mouseX - x)\<close> and
  its height to \<open>max 20 (mouseY - y)\<close>, each from its own axis only, and changes nothing else
  of the image; so both are at least 20 wherever the pointer is.
\<close>

theorem resize_clamped_per_axis:
  assumes "ist_mode (interactionState s) = ResizingBr"
      and "ist_target (interactionState s) = Some TImage"
      and "ist_id (interactionState s) = Some ident" and "ident \<noteq> []"
      and "k < length (images s)" and "img_id (images s ! k) = ident"
      and "img_x (images s ! k) = Some x" and "img_y (images s ! k) = Some y"
  shows "\<exists>w h. images (handleMouseMove s mouseX mouseY) ! k =
                 (images s ! k)\<lparr> img_width := Some w, img_height := Some h \<rparr>
             \<and> w = max 20 (mouseX - x) \<and> h = max 20 (mouseY - y) \<and> 20 \<le> w \<and> 20 \<le> h"
proof -
  let ?ist = "interactionState s"
  have step: "handleMouseMove s mouseX mouseY =
              s\<lparr> images := map (moveImage ?ist mouseX mouseY) (images s) \<rparr>"
    using assms(1-4) by (simp add: handleMouseMove_def Let_def truthyId_def)
  have "moveImage ?ist mouseX mouseY (images s ! k) =
        (images s ! k)\<lparr> img_width := Some (max 20 (mouseX - x)),
                         img_height := Some (max 20 (mouseY - y)) \<rparr>"
    using assms by (intro moveImage_resize) simp_all
  with step assms(5) show ?thesis by simp
qed

theorem resize_clamped_per_axis_witness:
  "\<exists>w h. images (handleMouseMove resizeDemo 10 400) ! 0 =
      (images resizeDemo ! 0)\<lparr> img_width := Some w, img_height := Some h \<rparr>
     \<and> w = 20 \<and> h = 350"
  using resize_clamped_per_axis [of resizeDemo "''a''" 0 50 50 10 400]
  by (simp add: resizeDemo_def)

section \<open>Z-order\<close>

lemma fold_max_ge: "(b::real) \<le> fold max zs b"
  by (induction zs arbitrary: b) (auto intro: order_trans [OF max.cobounded2])

lemma fold_max_mem: "(z::real) \<in> set zs \<Longrightarrow> z \<le> fold max zs b"
proof (induction zs arbitrary: b)
  case Nil
  then show ?case by simp
next
  case (Cons a zs)
  show ?case
  proof (cases "z = a")
    case True
    have "a \<le> max a b" by simp
    also have "\<dots> \<le> fold max zs (max a b)" by (rule fold_max_ge)
    finally show ?thesis using True by simp
  next
    case False
    with Cons.prems have "z \<in> set zs" by simp
    then show ?thesis using Cons.IH by simp
  qed
qed

lemma fold_min_le: "fold min zs (b::real) \<le> b"
  by (induction zs arbitrary: b) (auto intro: order_trans [OF _ min.cobounded2])

lemma fold_min_mem: "(z::real) \<in> set zs \<Longrightarrow> fold min zs b \<le> z"
proof (induction zs arbitrary: b)
  case Nil
  then show ?case by simp
next
  case (Cons a zs)
  show ?case
  proof (cases "z = a")
    case True
    have "fold min zs (min a b) \<le> min a b" by (rule fold_min_le)
    also have "\<dots> \<le> a" by simp
    finally show ?thesis using True by simp
  next
    case False
    with Cons.prems have "z \<in> set zs" by simp
    then show ?thesis using Cons.IH by simp
  qed
qed

lemma bringToFront_nth:
  "k < length imgs \<Longrightarrow>
   bringToFront ident imgs ! k =
     (if img_id (imgs ! k) = ident
      then (imgs ! k)\<lparr>img_zIndex := Some (fold max (map zIndexOr0 imgs) 0 + 1)\<rparr>
      else imgs ! k)"
  by (simp add: bringToFront_def Let_def)

lemma sendToBack_nth:
  "k < length imgs \<Longrightarrow>
   sendToBack ident imgs ! k =
     (if img_id (imgs ! k) = ident
      then (imgs ! k)\<lparr>img_zIndex := Some (fold min (map zIndexOr0 imgs) 0 - 1)\<rparr>
      else imgs ! k)"
  by (simp add: sendToBack_def Let_def)

text \<open>
  C6. With \<open>zIndexOr0\<close> the value \<open>zIndex || 0\<close> that the renderers sort by: after
  \<open>bringToFront ident\<close> the image \<open>ident\<close> is strictly above every other image, after
  \<open>sendToBack ident\<close> strictly below, and every other image is left as it was.
\<close>

theorem z_order_front_back:
  "\<forall>j<length imgs. \<forall>k<length imgs.
      img_id (imgs ! j) = ident \<and> img_id (imgs ! k) \<noteq> ident \<longrightarrow>
        zIndexOr0 (bringToFront ident imgs ! k) < zIndexOr0 (bringToFront ident imgs ! j)
      \<and> zIndexOr0 (sendToBack ident imgs ! j) < zIndexOr0 (sendToBack ident imgs ! k)
      \<and> bringToFront ident imgs ! k = imgs ! k
      \<and> sendToBack ident imgs ! k = imgs ! k"
proof (intro allI impI)
  fix j k
  assume j: "j < length imgs" and k: "k < length imgs"
    and ids: "img_id (imgs ! j) = ident \<and> img_id (imgs ! k) \<noteq> ident"
  have mem: "zIndexOr0 (imgs ! k) \<in> set (map zIndexOr0 imgs)" using k by simp
  have up: "zIndexOr0 (imgs ! k) \<le> fold max (map zIndexOr0 imgs) 0"
    by (rule fold_max_mem [OF mem])
  have down: "fold min (map zIndexOr0 imgs) 0 \<le> zIndexOr0 (imgs ! k)"
    by (rule fold_min_mem [OF mem])
  show "zIndexOr0 (bringToFront ident imgs ! k) < zIndexOr0 (bringToFront ident imgs ! j)
      \<and> zIndexOr0 (sendToBack ident imgs ! j) < zIndexOr0 (sendToBack ident imgs ! k)
      \<and> bringToFront ident imgs ! k = imgs ! k
      \<and> sendToBack ident imgs ! k = imgs ! k"
    using j k ids up down by (simp add: bringToFront_nth sendToBack_nth zIndexOr0_def)
qed

theorem z_order_front_back_witness:
  "zIndexOr0 (bringToFront ''a'' zDemo ! 1) < zIndexOr0 (bringToFront ''a'' zDemo ! 0)
   \<and> zIndexOr0 (sendToBack ''a'' zDemo ! 0) < zIndexOr0 (sendToBack ''a'' zDemo ! 1)
   \<and> bringToFront ''a'' zDemo ! 1 = zDemo ! 1
   \<and> sendToBack ''a'' zDemo ! 1 = zDemo ! 1
   \<and> map zIndexOr0 (bringToFront ''a'' zDemo) = [3, 2, 0]
   \<and> map zIndexOr0 (sendToBack ''a'' zDemo) = [-1, 2, 0]"
proof -
  have len: "length zDemo = 3" by (simp add: zDemo_def)
  have "(0::nat) < length zDemo" "(1::nat) < length zDemo" using len by simp_all
  moreover have "img_id (zDemo ! 0) = ''a'' \<and> img_id (zDemo ! 1) \<noteq> ''a''" by (simp add: zDemo_def)
  ultimately have "zIndexOr0 (bringToFront ''a'' zDemo ! 1) < zIndexOr0 (bringToFront ''a'' zDemo ! 0)
      \<and> zIndexOr0 (sendToBack ''a'' zDemo ! 0) < zIndexOr0 (sendToBack ''a'' zDemo ! 1)
      \<and> bringToFront ''a'' zDemo ! 1 = zDemo ! 1
      \<and> sendToBack ''a'' zDemo ! 1 = zDemo ! 1"
    using z_order_front_back [of zDemo "''a''"] by blast
  moreover have "map zIndexOr0 (bringToFront ''a'' zDemo) = [3, 2, 0]"
    by (simp add: zDemo_def bringToFront_def zIndexOr0_def)
  moreover have "map zIndexOr0 (sendToBack ''a'' zDemo) = [-1, 2, 0]"
    by (simp add: zDemo_def sendToBack_def zIndexOr0_def)
  ultimately show ?thesis by blast
qed

section \<open>Upload\<close>

lemma mapIndex_length: "length (mapIndex f xs i) = length xs"
  by (induction xs arbitrary: i) simp_all

lemma mapIndex_nth: "j < length xs \<Longrightarrow> mapIndex f xs i ! j = f (xs ! j) (i + j)"
proof (induction xs arbitrary: i j)
  case Nil
  then show ?case by simp
next
  case (Cons x xs)
  show ?case
  proof (cases j)
    case 0
    then show ?thesis by simp
  next
    case (Suc m)
    with Cons.prems have "m < length xs" by simp
    from Cons.IH [OF this, of "Suc i"] Suc show ?thesis by simp
  qed
qed

text \<open>The base of the new z-indices: the largest \<open>zIndex || 0\<close> so far, or 0 for no image.\<close>

lemma upload_base_ge:
  "a \<in> set imgs \<Longrightarrow>
   zIndexOr0 a \<le> (case map zIndexOr0 imgs of [] \<Rightarrow> 0 | z # zs \<Rightarrow> fold max zs z)"
proof (cases imgs)
  case Nil
  assume "a \<in> set imgs"
  with Nil show ?thesis by simp
next
  case (Cons b rest)
  assume a: "a \<in> set imgs"
  show ?thesis
  proof (cases "a = b")
    case True
    then show ?thesis using Cons by (simp add: fold_max_ge)
  next
    case False
    with a Cons have "zIndexOr0 a \<in> set (map zIndexOr0 rest)" by simp
    then show ?thesis using Cons by (simp add: fold_max_mem)
  qed
qed

lemma upload_base_Max:
  "(case map zIndexOr0 imgs of [] \<Rightarrow> 0 | z # zs \<Rightarrow> fold max zs z) =
   (if imgs = [] then 0 else Max (zIndexOr0 ` set imgs))"
proof (cases imgs)
  case Nil
  then show ?thesis by simp
next
  case (Cons b rest)
  have "Max (set (zIndexOr0 b # map zIndexOr0 rest)) = fold max (map zIndexOr0 rest) (zIndexOr0 b)"
    by (rule Max.set_eq_fold)
  then show ?thesis using Cons by simp
qed

text \<open>
  C9. \<open>handleImageUpload\<close> does not read the layout mode. It keeps the images there are and
  appends one image per file: file \<open>j\<close> of the batch gets \<open>x = y = 50 + 30 j\<close>, width 300,
  height 200 and \<open>zIndex = m + j + 1\<close>, where \<open>m\<close> is the largest \<open>zIndex || 0\<close> of the images
  there are, or 0 when there is none. So a new image is strictly above every old one, and a
  later file of the batch strictly above an earlier one.
\<close>

theorem upload_defaults:
  "length (handleImageUpload imgs files) = length imgs + length files
   \<and> take (length imgs) (handleImageUpload imgs files) = imgs
   \<and> (\<forall>j<length files.
        handleImageUpload imgs files ! (length imgs + j) =
          \<lparr> img_id = fst (files ! j), img_url = snd (files ! j),
            img_x = Some (50 + 30 * real j), img_y = Some (50 + 30 * real j),
            img_width = Some 300, img_height = Some 200,
            img_zIndex = Some ((if imgs = [] then 0 else Max (zIndexOr0 ` set imgs)) + real j + 1) \<rparr>
        \<and> (\<forall>a\<in>set imgs. zIndexOr0 a < zIndexOr0 (handleImageUpload imgs files ! (length imgs + j)))
        \<and> (\<forall>i<j. zIndexOr0 (handleImageUpload imgs files ! (length imgs + i))
                   < zIndexOr0 (handleImageUpload imgs files ! (length imgs + j))))"
proof -
  let ?new = "mapIndex (newImage imgs) files 0"
  have res: "handleImageUpload imgs files = imgs @ ?new"
    by (simp add: handleImageUpload_def Let_def)
  have new_nth: "(imgs @ ?new) ! (length imgs + j) = newImage imgs (files ! j) j"
    if "j < length files" for j
    using that by (simp add: nth_append mapIndex_nth)
  have z_new: "zIndexOr0 (newImage imgs f j) =
               (case map zIndexOr0 imgs of [] \<Rightarrow> 0 | z # zs \<Rightarrow> fold max zs z) + real j + 1" for f j
    by (simp add: newImage_def zIndexOr0_def)
  have "length (imgs @ ?new) = length imgs + length files"
    by (simp add: mapIndex_length)
  moreover have "take (length imgs) (imgs @ ?new) = imgs" by simp
  moreover have "\<forall>j<length files.
        (imgs @ ?new) ! (length imgs + j) =
          \<lparr> img_id = fst (files ! j), img_url = snd (files ! j),
            img_x = Some (50 + 30 * real j), img_y = Some (50 + 30 * real j),
            img_width = Some 300, img_height = Some 200,
            img_zIndex = Some ((if imgs = [] then 0 else Max (zIndexOr0 ` set imgs)) + real j + 1) \<rparr>
        \<and> (\<forall>a\<in>set imgs. zIndexOr0 a < zIndexOr0 ((imgs @ ?new) ! (length imgs + j)))
        \<and> (\<forall>i<j. zIndexOr0 ((imgs @ ?new) ! (length imgs + i))
                   < zIndexOr0 ((imgs @ ?new) ! (length imgs + j)))"
  proof (intro allI impI conjI ballI)
    fix j assume j: "j < length files"
    show "(imgs @ ?new) ! (length imgs + j) =
          \<lparr> img_id = fst (files ! j), img_url = snd (files ! j),
            img_x = Some (50 + 30 * real j), img_y = Some (50 + 30 * real j),
            img_width = Some 300, img_height = Some 200,
            img_zIndex = Some ((if imgs = [] then 0 else Max (zIndexOr0 ` set imgs)) + real j + 1) \<rparr>"
      unfolding new_nth [OF j] newImage_def upload_base_Max by (simp add: mult.commute)
  next
    fix j a assume j: "j < length files" and a: "a \<in> set imgs"
    from upload_base_ge [OF a] show "zIndexOr0 a < zIndexOr0 ((imgs @ ?new) ! (length imgs + j))"
      unfolding new_nth [OF j] z_new by simp
  next
    fix j i assume j: "j < length files" and i: "i < j"
    then have i': "i < length files" by simp
    show "zIndexOr0 ((imgs @ ?new) ! (length imgs + i)) < zIndexOr0 ((imgs @ ?new) ! (length imgs + j))"
      unfolding new_nth [OF j] new_nth [OF i'] z_new using i by simp
  qed
  ultimately show ?thesis unfolding res by blast
qed

theorem upload_defaults_witness:
  "uploadDemo ! 4 =
     \<lparr> img_id = ''e'', img_url = ''ue'', img_x = Some 80, img_y = Some 80,
       img_width = Some 300, img_height = Some 200, img_zIndex = Some 4 \<rparr>
   \<and> zIndexOr0 (zDemo ! 1) < zIndexOr0 (uploadDemo ! 4)
   \<and> zIndexOr0 (uploadDemo ! 3) < zIndexOr0 (uploadDemo ! 4)"
proof -
  have len: "length zDemo = 3" by (simp add: zDemo_def)
  have mx: "Max (zIndexOr0 ` set zDemo) = 2" by (simp add: zDemo_def zIndexOr0_def)
  have ne: "zDemo \<noteq> []" by (simp add: zDemo_def)
  have mem: "zDemo ! 1 \<in> set zDemo" using len by (intro nth_mem) simp
  have j1: "(1::nat) < length [(''d'', ''ud''), (''e'', ''ue'')]" by simp
  note th = upload_defaults [of zDemo "[(''d'', ''ud''), (''e'', ''ue'')]",
      THEN conjunct2, THEN conjunct2, rule_format, OF j1]
  have idx: "length zDemo + 1 = 4" "length zDemo + 0 = 3" using len by simp_all
  have a: "uploadDemo ! 4 =
     \<lparr> img_id = ''e'', img_url = ''ue'', img_x = Some 80, img_y = Some 80,
       img_width = Some 300, img_height = Some 200, img_zIndex = Some 4 \<rparr>"
    unfolding uploadDemo_def using th [THEN conjunct1] ne mx unfolding idx by simp
  have b: "zIndexOr0 (zDemo ! 1) < zIndexOr0 (uploadDemo ! 4)"
    unfolding uploadDemo_def
    using th [THEN conjunct2, THEN conjunct1, rule_format, OF mem] unfolding idx .
  have z: "(0::nat) < 1" by simp
  have c: "zIndexOr0 (uploadDemo ! 3) < zIndexOr0 (uploadDemo ! 4)"
    unfolding uploadDemo_def
    using th [THEN conjunct2, THEN conjunct2, rule_format, OF z] unfolding idx .
  from a b c show ?thesis by blast
qed

section \<open>The grid\<close>

lemma ceil_sqrt_eq:
  assumes "0 < c" "(c - 1) * (c - 1) < n" "n \<le> c * c"
  shows "nat \<lceil>sqrt (real n)\<rceil> = c"
proof -
  have lo: "real c - 1 < sqrt (real n)"
  proof -
    have "real ((c - 1) * (c - 1)) < real n" using assms(2) by (simp only: of_nat_less_iff)
    then have "sqrt (real (c - 1) * real (c - 1)) < sqrt (real n)"
      by (simp only: real_sqrt_less_iff of_nat_mult)
    moreover have "sqrt (real (c - 1) * real (c - 1)) = real (c - 1)"
      by (simp only: real_sqrt_abs2 abs_of_nat)
    ultimately show ?thesis using assms(1) by simp
  qed
  have hi: "sqrt (real n) \<le> real c"
  proof -
    have "real n \<le> real (c * c)" using assms(3) by (simp only: of_nat_le_iff)
    then have "sqrt (real n) \<le> sqrt (real c * real c)"
      by (simp only: real_sqrt_le_iff of_nat_mult)
    moreover have "sqrt (real c * real c) = real c"
      by (simp only: real_sqrt_abs2 abs_of_nat)
    ultimately show ?thesis by simp
  qed
  have "\<lceil>sqrt (real n)\<rceil> = int c"
    using lo hi by (intro ceiling_unique) auto
  then show ?thesis by simp
qed

lemma gridCols_1: "gridCols (Suc 0) = 1"
  unfolding gridCols_def by simp

lemma gridCols_4: "gridCols 4 = 2"
  unfolding gridCols_def by (rule ceil_sqrt_eq) simp_all

lemma gridRows_4_2: "gridRows 4 2 = 2"
  unfolding gridRows_def by simp

text \<open>A \<open>forEach\<close> whose callback makes one call: the call for each element, in order.\<close>

lemma forEach_single_length:
  assumes "\<And>x i. f x i = [c x i]"
  shows "length (forEach f xs i) = length xs"
  by (induction xs arbitrary: i) (simp_all add: assms)

lemma forEach_single_nth:
  assumes "\<And>x i. f x i = [c x i]" and "k < length xs"
  shows "forEach f xs i ! k = c (xs ! k) (i + k)"
  using assms(2)
proof (induction xs arbitrary: i k)
  case Nil
  then show ?case by simp
next
  case (Cons x xs)
  show ?case
  proof (cases k)
    case 0
    then show ?thesis by (simp add: assms(1))
  next
    case (Suc j)
    with Cons.prems have "j < length xs" by simp
    from Cons.IH [OF this, of "Suc i"] Suc show ?thesis by (simp add: assms(1))
  qed
qed

lemma gridCell_single:
  "gridCell W H g cols rows img i =
     [Call_drawImage img
        (g + real (i mod cols) * ((W - (real cols + 1) * g) / real cols + g))
        (g + real (i div cols) * ((H - (real rows + 1) * g) / real rows + g))
        ((W - (real cols + 1) * g) / real cols)
        ((H - (real rows + 1) * g) / real rows) 1]"
  by (simp add: gridCell_def Let_def)

lemma exportGridCell_single:
  "exportGridCell W H gx gy cols rows img i =
     [Call_drawImage img
        (gx + real (i mod cols) * ((W - (real cols + 1) * gx) / real cols + gx))
        (gy + real (i div cols) * ((H - (real rows + 1) * gy) / real rows + gy))
        ((W - (real cols + 1) * gx) / real cols)
        ((H - (real rows + 1) * gy) / real rows) 1]"
  by (simp add: exportGridCell_def Let_def)

lemma drawCanvas_layout_Grid:
  "layoutMode sc = Grid \<Longrightarrow>
   drawCanvas_layout W H sc loaded sel =
     forEach (gridCell W H (gap sc) (gridCols (length loaded))
                (gridRows (length loaded) (gridCols (length loaded)))) loaded 0"
  by (simp add: drawCanvas_layout_def Let_def)

lemma drawExportCanvas_layout_Grid:
  "layoutMode sc = Grid \<Longrightarrow>
   drawExportCanvas_layout W H sx sy sc loaded =
     forEach (exportGridCell W H (gap sc * sx) (gap sc * sy) (gridCols (length loaded))
                (gridRows (length loaded) (gridCols (length loaded)))) loaded 0"
  by (simp add: drawExportCanvas_layout_def Let_def)

text \<open>
  C2. In grid mode with \<open>n \<ge> 1\<close> pictures the preview calls \<open>drawImage\<close> once per picture,
  picture \<open>i\<close> on the cell of size \<open>((W - (cols+1) g)/cols, (H - (rows+1) g)/rows)\<close> at
  \<open>(g + col (cellW + g), g + row (cellH + g))\<close>, with \<open>cols = ceil (sqrt n)\<close>,
  \<open>rows = ceil (n / cols)\<close>, \<open>col = i mod cols\<close>, \<open>row = floor (i / cols)\<close>. The export does
  the same on its own canvas, with the gap \<open>g scaleX\<close> across and \<open>g scaleY\<close> down. For four
  pictures, gap 16 and a canvas of 800 by 600 the cells are 376 by 276 at (16,16), (408,16),
  (16,308) and (408,308).
\<close>

theorem grid_placement:
  assumes "layoutMode sc = Grid" and "i < length loaded"
  shows "let n = length loaded;
             g = gap sc;
             cols = nat \<lceil>sqrt (real n)\<rceil>;
             rows = nat \<lceil>real n / real cols\<rceil>;
             col = i mod cols;
             row = i div cols;
             cellW = (W - (real cols + 1) * g) / real cols;
             cellH = (H - (real rows + 1) * g) / real rows;
             gx = g * scaleX;
             gy = g * scaleY;
             ecellW = (EW - (real cols + 1) * gx) / real cols;
             ecellH = (EH - (real rows + 1) * gy) / real rows
         in length (drawCanvas_layout W H sc loaded sel) = n
          \<and> drawCanvas_layout W H sc loaded sel ! i =
              Call_drawImage (loaded ! i) (g + real col * (cellW + g)) (g + real row * (cellH + g))
                cellW cellH 1
          \<and> length (drawExportCanvas_layout EW EH scaleX scaleY sc loaded) = n
          \<and> drawExportCanvas_layout EW EH scaleX scaleY sc loaded ! i =
              Call_drawImage (loaded ! i) (gx + real col * (ecellW + gx)) (gy + real row * (ecellH + gy))
                ecellW ecellH 1
          \<and> (n = 4 \<and> g = 16 \<longrightarrow>
               cols = 2 \<and> rows = 2 \<and>
               drawCanvas_layout 800 600 sc loaded sel =
                 [Call_drawImage (loaded ! 0) 16 16 376 276 1,
                  Call_drawImage (loaded ! 1) 408 16 376 276 1,
                  Call_drawImage (loaded ! 2) 16 308 376 276 1,
                  Call_drawImage (loaded ! 3) 408 308 376 276 1])"
proof -
  let ?n = "length loaded"
  let ?cols = "gridCols ?n"
  let ?rows = "gridRows ?n ?cols"
  have len: "length (drawCanvas_layout W H sc loaded sel) = ?n"
    unfolding drawCanvas_layout_Grid [OF assms(1)]
    by (rule forEach_single_length [OF gridCell_single])
  have nth: "drawCanvas_layout W H sc loaded sel ! i =
      Call_drawImage (loaded ! i)
        (gap sc + real (i mod ?cols) * ((W - (real ?cols + 1) * gap sc) / real ?cols + gap sc))
        (gap sc + real (i div ?cols) * ((H - (real ?rows + 1) * gap sc) / real ?rows + gap sc))
        ((W - (real ?cols + 1) * gap sc) / real ?cols)
        ((H - (real ?rows + 1) * gap sc) / real ?rows) 1"
    unfolding drawCanvas_layout_Grid [OF assms(1)]
    using forEach_single_nth [where f = "gridCell W H (gap sc) ?cols ?rows" and xs = loaded
        and i = 0, OF gridCell_single assms(2)]
    by simp
  have elen: "length (drawExportCanvas_layout EW EH scaleX scaleY sc loaded) = ?n"
    unfolding drawExportCanvas_layout_Grid [OF assms(1)]
    by (rule forEach_single_length [OF exportGridCell_single])
  have enth: "drawExportCanvas_layout EW EH scaleX scaleY sc loaded ! i =
      Call_drawImage (loaded ! i)
        (gap sc * scaleX + real (i mod ?cols) *
           ((EW - (real ?cols + 1) * (gap sc * scaleX)) / real ?cols + gap sc * scaleX))
        (gap sc * scaleY + real (i div ?cols) *
           ((EH - (real ?rows + 1) * (gap sc * scaleY)) / real ?rows + gap sc * scaleY))
        ((EW - (real ?cols + 1) * (gap sc * scaleX)) / real ?cols)
        ((EH - (real ?rows + 1) * (gap sc * scaleY)) / real ?rows) 1"
    unfolding drawExportCanvas_layout_Grid [OF assms(1)]
    using forEach_single_nth [where f = "exportGridCell EW EH (gap sc * scaleX) (gap sc * scaleY)
        ?cols ?rows" and xs = loaded and i = 0, OF exportGridCell_single assms(2)]
    by simp
  have four: "?cols = 2 \<and> ?rows = 2 \<and>
       drawCanvas_layout 800 600 sc loaded sel =
         [Call_drawImage (loaded ! 0) 16 16 376 276 1,
          Call_drawImage (loaded ! 1) 408 16 376 276 1,
          Call_drawImage (loaded ! 2) 16 308 376 276 1,
          Call_drawImage (loaded ! 3) 408 308 376 276 1]"
    if n4: "?n = 4" and g16: "gap sc = 16"
  proof -
    from n4 obtain a b c d where l: "loaded = [a, b, c, d]"
      by (auto simp: length_Suc_conv numeral_eq_Suc)
    have c2: "?cols = 2" using n4 gridCols_4 by simp
    have r2: "?rows = 2" using n4 c2 gridRows_4_2 by simp
    have "drawCanvas_layout 800 600 sc loaded sel =
          forEach (gridCell 800 600 16 2 2) loaded 0"
      unfolding drawCanvas_layout_Grid [OF assms(1)] using c2 r2 g16 by simp
    also have "\<dots> = [Call_drawImage (loaded ! 0) 16 16 376 276 1,
          Call_drawImage (loaded ! 1) 408 16 376 276 1,
          Call_drawImage (loaded ! 2) 16 308 376 276 1,
          Call_drawImage (loaded ! 3) 408 308 376 276 1]"
      unfolding l by (simp add: gridCell_single numeral_3_eq_3)
    finally show ?thesis using c2 r2 by simp
  qed
  show ?thesis
    unfolding Let_def gridCols_def [symmetric] gridRows_def [symmetric]
    using len nth elen enth four by blast
qed

theorem grid_placement_witness:
  "drawCanvas_layout 800 600 gridDemo [pic ''a'', pic ''b'', pic ''c'', pic ''d''] None ! 3 =
     Call_drawImage (pic ''d'') 408 308 376 276 1
   \<and> drawExportCanvas_layout 2000 1500 (5/2) (5/2) gridDemo
        [pic ''a'', pic ''b'', pic ''c'', pic ''d''] ! 3 =
     Call_drawImage (pic ''d'') 1020 770 940 690 1
   \<and> drawCanvas_layout 800 600 gridDemo [pic ''a'', pic ''b'', pic ''c'', pic ''d''] None =
       [Call_drawImage (pic ''a'') 16 16 376 276 1,
        Call_drawImage (pic ''b'') 408 16 376 276 1,
        Call_drawImage (pic ''c'') 16 308 376 276 1,
        Call_drawImage (pic ''d'') 408 308 376 276 1]"
proof -
  let ?l = "[pic ''a'', pic ''b'', pic ''c'', pic ''d'']"
  have m: "layoutMode gridDemo = Grid" by (simp add: gridDemo_def)
  have i: "3 < length ?l" by simp
  have sq: "nat \<lceil>sqrt (real (length ?l))\<rceil> = 2"
    using gridCols_4 by (simp add: gridCols_def)
  note th = grid_placement [OF m i, where W = 800 and H = 600 and sel = None and EW = 2000
      and EH = 1500 and scaleX = "5/2" and scaleY = "5/2", unfolded Let_def sq]
  have g: "gap gridDemo = 16" by (simp add: gridDemo_def)
  from th show ?thesis unfolding g by (simp add: numeral_3_eq_3)
qed

section \<open>Left-big and right-big\<close>

lemma bigCols_eq_gridCols: "0 < n \<Longrightarrow> bigCols n = gridCols n"
proof -
  assume "0 < n"
  then have "1 \<le> sqrt (real n)" by simp
  then have "1 \<le> \<lceil>sqrt (real n)\<rceil>" by linarith
  then have "1 \<le> nat \<lceil>sqrt (real n)\<rceil>" by linarith
  then show ?thesis unfolding bigCols_def gridCols_def by (rule max_absorb2)
qed

lemma bigCols_pos: "0 < bigCols n"
  by (simp add: bigCols_def)

lemma bigRows_eq_gridRows: "0 < n \<Longrightarrow> 0 < cols \<Longrightarrow> bigRows n cols = gridRows n cols"
proof -
  assume "0 < n" "0 < cols"
  then have "0 < real n / real cols" by simp
  then have "1 \<le> \<lceil>real n / real cols\<rceil>" by linarith
  then have "1 \<le> nat \<lceil>real n / real cols\<rceil>" by linarith
  then show ?thesis unfolding bigRows_def gridRows_def by (rule max_absorb2)
qed

lemma leftRightCell_single:
  "leftRightCell isLeftBig W H g cols rows img i =
     [Call_drawImage img
        ((if isLeftBig then W / 2 + g / 2 else g) +
           real (i mod cols) * ((W / 2 - g * 1.5 - (real cols - 1) * g) / real cols + g))
        (g + real (i div cols) * ((H - (real rows + 1) * g) / real rows + g))
        ((W / 2 - g * 1.5 - (real cols - 1) * g) / real cols)
        ((H - (real rows + 1) * g) / real rows) 1]"
  by (simp add: leftRightCell_def Let_def)

lemma exportLeftRightCell_single:
  "exportLeftRightCell isLeftBig W H gx gy cols rows img i =
     [Call_drawImage img
        ((if isLeftBig then W / 2 + gx / 2 else gx) +
           real (i mod cols) * ((W / 2 - gx * 1.5 - (real cols - 1) * gx) / real cols + gx))
        (gy + real (i div cols) * ((H - (real rows + 1) * gy) / real rows + gy))
        ((W / 2 - gx * 1.5 - (real cols - 1) * gx) / real cols)
        ((H - (real rows + 1) * gy) / real rows) 1]"
  by (simp add: exportLeftRightCell_def Let_def)

lemma drawCanvas_layout_LeftRight:
  assumes "layoutMode sc = LeftBig \<or> layoutMode sc = RightBig" and "1 < length loaded"
  shows "drawCanvas_layout W H sc loaded sel =
     Call_drawImage (loaded ! 0) (if layoutMode sc = LeftBig then gap sc else W / 2 + gap sc / 2)
       (gap sc) (W / 2 - gap sc * 1.5) (H - gap sc * 2) 1 #
     forEach (leftRightCell (layoutMode sc = LeftBig) W H (gap sc) (bigCols (length loaded - 1))
                (bigRows (length loaded - 1) (bigCols (length loaded - 1)))) (drop 1 loaded) 0"
  using assms by (auto simp add: drawCanvas_layout_def Let_def)

lemma drawExportCanvas_layout_LeftRight:
  assumes "layoutMode sc = LeftBig \<or> layoutMode sc = RightBig" and "1 < length loaded"
  shows "drawExportCanvas_layout W H sx sy sc loaded =
     Call_drawImage (loaded ! 0)
       (if layoutMode sc = LeftBig then gap sc * sx else W / 2 + gap sc * sx / 2)
       (gap sc * sy) (W / 2 - gap sc * sx * 1.5) (H - gap sc * sy * 2) 1 #
     forEach (exportLeftRightCell (layoutMode sc = LeftBig) W H (gap sc * sx) (gap sc * sy)
                (bigCols (length loaded - 1))
                (bigRows (length loaded - 1) (bigCols (length loaded - 1)))) (drop 1 loaded) 0"
  using assms by (auto simp add: drawExportCanvas_layout_def Let_def)

text \<open>
  C3 as stated fails: with two pictures, gap 16 and a canvas of 800 by 600 in left-big mode the
  second picture's cell is 376 wide at x = 408, while the grid algorithm on the right
  half-width column (400 wide) gives a cell 368 wide at x = 416. (On a column as wide as the
  first picture's, 376, the grid formula with its \<open>cols + 1\<close> gaps gives a cell 344 wide.)
\<close>

theorem big_secondary_not_grid_counterexample:
  "drawCanvas_layout 800 600 leftBigDemo [pic ''a'', pic ''b''] None =
     [Call_drawImage (pic ''a'') 16 16 376 568 1, Call_drawImage (pic ''b'') 408 16 376 568 1]
   \<and> spec_leftRightBig True 800 600 16 [pic ''a'', pic ''b''] =
     [Call_drawImage (pic ''a'') 16 16 376 568 1, Call_drawImage (pic ''b'') 416 16 368 568 1]
   \<and> gridCell 376 600 16 (gridCols 1) (gridRows 1 (gridCols 1)) (pic ''b'') 0 =
     [Call_drawImage (pic ''b'') 16 16 344 568 1]
   \<and> drawCanvas_layout 800 600 leftBigDemo [pic ''a'', pic ''b''] None
     \<noteq> spec_leftRightBig True 800 600 (gap leftBigDemo) [pic ''a'', pic ''b'']"
proof -
  have narrow: "gridCell 376 600 16 (gridCols 1) (gridRows 1 (gridCols 1)) (pic ''b'') 0 =
     [Call_drawImage (pic ''b'') 16 16 344 568 1]"
    using gridCols_1 by (simp add: gridRows_def gridCell_single)
  have b1: "bigCols (Suc 0) = 1" by (simp add: bigCols_def)
  have r1: "bigRows (Suc 0) (Suc 0) = 1" by (simp add: bigRows_def)
  have g1: "gridRows (Suc 0) (Suc 0) = 1" by (simp add: gridRows_def)
  have code: "drawCanvas_layout 800 600 leftBigDemo [pic ''a'', pic ''b''] None =
     [Call_drawImage (pic ''a'') 16 16 376 568 1, Call_drawImage (pic ''b'') 408 16 376 568 1]"
    by (simp add: drawCanvas_layout_def leftBigDemo_def gridDemo_def Let_def b1 r1
        leftRightCell_single)
  have spec: "spec_leftRightBig True 800 600 16 [pic ''a'', pic ''b''] =
     [Call_drawImage (pic ''a'') 16 16 376 568 1, Call_drawImage (pic ''b'') 416 16 368 568 1]"
    by (simp add: spec_leftRightBig_def Let_def gridCols_1 g1 gridCell_single)
  have g: "gap leftBigDemo = 16" by (simp add: leftBigDemo_def gridDemo_def)
  have ne: "drawCanvas_layout 800 600 leftBigDemo [pic ''a'', pic ''b''] None
     \<noteq> spec_leftRightBig True 800 600 (gap leftBigDemo) [pic ''a'', pic ''b'']"
    unfolding g code spec by simp
  from code spec narrow ne show ?thesis by blast
qed

text \<open>
  C3, amended. In left-big and right-big mode with \<open>n \<ge> 2\<close> pictures the first picture gets
  the cell of width \<open>W/2 - 1.5 g\<close> and height \<open>H - 2 g\<close> at \<open>y = g\<close> and \<open>x = g\<close> (left-big) or
  \<open>x = W/2 + g/2\<close> (right-big). The other \<open>n - 1\<close> are set in \<open>cols = ceil (sqrt (n - 1))\<close>
  columns and \<open>rows = ceil ((n - 1) / cols)\<close> rows, as grid mode would, in the other column of
  the same width \<open>W/2 - 1.5 g\<close>, which starts at \<open>startX = W/2 + g/2\<close> (left-big) or \<open>g\<close>
  (right-big): the cell width is \<open>(W/2 - 1.5 g - (cols - 1) g) / cols\<close>, with \<open>cols - 1\<close> gaps,
  the cell height \<open>(H - (rows + 1) g) / rows\<close> as in grid mode, and picture \<open>i + 1\<close> is at
  \<open>(startX + col (cellW + g), g + row (cellH + g))\<close>. The export does the same on its canvas
  with the gap \<open>g scaleX\<close> across and \<open>g scaleY\<close> down.
\<close>

theorem big_left_right_placement:
  assumes "layoutMode sc = LeftBig \<or> layoutMode sc = RightBig"
      and "2 \<le> length loaded" and "i < length loaded - 1"
  shows "let n = length loaded;
             g = gap sc;
             isLeft = (layoutMode sc = LeftBig);
             cols = nat \<lceil>sqrt (real (n - 1))\<rceil>;
             rows = nat \<lceil>real (n - 1) / real cols\<rceil>;
             col = i mod cols;
             row = i div cols;
             startX = (if isLeft then W / 2 + g / 2 else g);
             cellW = (W / 2 - 1.5 * g - (real cols - 1) * g) / real cols;
             cellH = (H - (real rows + 1) * g) / real rows;
             gx = g * scaleX;
             gy = g * scaleY;
             estartX = (if isLeft then EW / 2 + gx / 2 else gx);
             ecellW = (EW / 2 - 1.5 * gx - (real cols - 1) * gx) / real cols;
             ecellH = (EH - (real rows + 1) * gy) / real rows
         in length (drawCanvas_layout W H sc loaded sel) = n
          \<and> drawCanvas_layout W H sc loaded sel ! 0 =
              Call_drawImage (loaded ! 0) (if isLeft then g else W / 2 + g / 2) g
                (W / 2 - 1.5 * g) (H - 2 * g) 1
          \<and> drawCanvas_layout W H sc loaded sel ! (i + 1) =
              Call_drawImage (loaded ! (i + 1)) (startX + real col * (cellW + g))
                (g + real row * (cellH + g)) cellW cellH 1
          \<and> length (drawExportCanvas_layout EW EH scaleX scaleY sc loaded) = n
          \<and> drawExportCanvas_layout EW EH scaleX scaleY sc loaded ! 0 =
              Call_drawImage (loaded ! 0) (if isLeft then gx else EW / 2 + gx / 2) gy
                (EW / 2 - 1.5 * gx) (EH - 2 * gy) 1
          \<and> drawExportCanvas_layout EW EH scaleX scaleY sc loaded ! (i + 1) =
              Call_drawImage (loaded ! (i + 1)) (estartX + real col * (ecellW + gx))
                (gy + real row * (ecellH + gy)) ecellW ecellH 1"
proof -
  let ?m = "length loaded - 1"
  have m: "0 < ?m" and one: "1 < length loaded" using assms(2) by simp_all
  have cols: "bigCols ?m = gridCols ?m" by (rule bigCols_eq_gridCols [OF m])
  have cpos: "0 < gridCols ?m" using bigCols_pos [of ?m] cols by simp
  have rows: "bigRows ?m (gridCols ?m) = gridRows ?m (gridCols ?m)"
    by (rule bigRows_eq_gridRows [OF m cpos])
  have i: "i < length (drop 1 loaded)" using assms(3) by simp
  have dn: "drop 1 loaded ! i = loaded ! (i + 1)" using assms(3) by simp
  note P = drawCanvas_layout_LeftRight [OF assms(1) one, of W H sel, unfolded cols rows]
  note E = drawExportCanvas_layout_LeftRight [OF assms(1) one, of EW EH scaleX scaleY,
      unfolded cols rows]
  have plen: "length (drawCanvas_layout W H sc loaded sel) = length loaded"
    unfolding P using one
    by (simp add: forEach_single_length [OF leftRightCell_single])
  have elen: "length (drawExportCanvas_layout EW EH scaleX scaleY sc loaded) = length loaded"
    unfolding E using one
    by (simp add: forEach_single_length [OF exportLeftRightCell_single])
  have p0: "drawCanvas_layout W H sc loaded sel ! 0 =
      Call_drawImage (loaded ! 0) (if layoutMode sc = LeftBig then gap sc else W / 2 + gap sc / 2)
        (gap sc) (W / 2 - 1.5 * gap sc) (H - 2 * gap sc) 1"
    unfolding P by (simp add: mult.commute)
  have e0: "drawExportCanvas_layout EW EH scaleX scaleY sc loaded ! 0 =
      Call_drawImage (loaded ! 0)
        (if layoutMode sc = LeftBig then gap sc * scaleX else EW / 2 + gap sc * scaleX / 2)
        (gap sc * scaleY) (EW / 2 - 1.5 * (gap sc * scaleX)) (EH - 2 * (gap sc * scaleY)) 1"
    unfolding E by (simp add: mult.commute)
  have pn: "drawCanvas_layout W H sc loaded sel ! (i + 1) =
      Call_drawImage (loaded ! (i + 1))
        ((if layoutMode sc = LeftBig then W / 2 + gap sc / 2 else gap sc) +
           real (i mod gridCols ?m) *
             ((W / 2 - 1.5 * gap sc - (real (gridCols ?m) - 1) * gap sc) / real (gridCols ?m) + gap sc))
        (gap sc + real (i div gridCols ?m) *
           ((H - (real (gridRows ?m (gridCols ?m)) + 1) * gap sc) / real (gridRows ?m (gridCols ?m)) + gap sc))
        ((W / 2 - 1.5 * gap sc - (real (gridCols ?m) - 1) * gap sc) / real (gridCols ?m))
        ((H - (real (gridRows ?m (gridCols ?m)) + 1) * gap sc) / real (gridRows ?m (gridCols ?m))) 1"
    unfolding P
    using forEach_single_nth [where f = "leftRightCell (layoutMode sc = LeftBig) W H (gap sc)
        (gridCols ?m) (gridRows ?m (gridCols ?m))" and xs = "drop 1 loaded" and i = 0,
        OF leftRightCell_single i]
    unfolding dn by (simp add: mult.commute)
  have en: "drawExportCanvas_layout EW EH scaleX scaleY sc loaded ! (i + 1) =
      Call_drawImage (loaded ! (i + 1))
        ((if layoutMode sc = LeftBig then EW / 2 + gap sc * scaleX / 2 else gap sc * scaleX) +
           real (i mod gridCols ?m) *
             ((EW / 2 - 1.5 * (gap sc * scaleX) - (real (gridCols ?m) - 1) * (gap sc * scaleX))
                / real (gridCols ?m) + gap sc * scaleX))
        (gap sc * scaleY + real (i div gridCols ?m) *
           ((EH - (real (gridRows ?m (gridCols ?m)) + 1) * (gap sc * scaleY))
              / real (gridRows ?m (gridCols ?m)) + gap sc * scaleY))
        ((EW / 2 - 1.5 * (gap sc * scaleX) - (real (gridCols ?m) - 1) * (gap sc * scaleX))
           / real (gridCols ?m))
        ((EH - (real (gridRows ?m (gridCols ?m)) + 1) * (gap sc * scaleY))
           / real (gridRows ?m (gridCols ?m))) 1"
    unfolding E
    using forEach_single_nth [where f = "exportLeftRightCell (layoutMode sc = LeftBig) EW EH
        (gap sc * scaleX) (gap sc * scaleY) (gridCols ?m) (gridRows ?m (gridCols ?m))"
        and xs = "drop 1 loaded" and i = 0, OF exportLeftRightCell_single i]
    unfolding dn by (simp add: mult.commute)
  show ?thesis
    unfolding Let_def gridCols_def [symmetric] gridRows_def [symmetric]
    using plen p0 pn elen e0 en by blast
qed

theorem big_left_right_placement_witness:
  "drawCanvas_layout 800 600 leftBigDemo [pic ''a'', pic ''b''] None ! 0 =
     Call_drawImage (pic ''a'') 16 16 376 568 1
   \<and> drawCanvas_layout 800 600 leftBigDemo [pic ''a'', pic ''b''] None ! 1 =
     Call_drawImage (pic ''b'') 408 16 376 568 1
   \<and> drawExportCanvas_layout 2000 1500 (5/2) (5/2) leftBigDemo [pic ''a'', pic ''b''] ! 1 =
     Call_drawImage (pic ''b'') 1020 40 940 1420 1"
proof -
  let ?l = "[pic ''a'', pic ''b'']"
  have m: "layoutMode leftBigDemo = LeftBig \<or> layoutMode leftBigDemo = RightBig"
    by (simp add: leftBigDemo_def)
  have n: "2 \<le> length ?l" by simp
  have i: "0 < length ?l - 1" by simp
  have isl: "(layoutMode leftBigDemo = LeftBig) = True" by (simp add: leftBigDemo_def)
  have g: "gap leftBigDemo = 16" by (simp add: leftBigDemo_def gridDemo_def)
  note th = big_left_right_placement [OF m n i, where W = 800 and H = 600 and sel = None
      and EW = 2000 and EH = 1500 and scaleX = "5/2" and scaleY = "5/2", unfolded Let_def isl g]
  from th show ?thesis by simp
qed

section \<open>No picture, one picture\<close>

text \<open>
  C7. With no picture every algorithmic mode (every mode but free placement) calls no
  drawing operation in its layout step, in the preview and in the export. With one picture
  each of the four big modes makes the one call of \<open>drawImage\<close> for the big picture and
  nothing else: the second step, the only one that divides by a number of columns or rows,
  does not run. (When it runs, these two divisors are at least 1.)
\<close>

theorem empty_and_single_layout:
  "(layoutMode sc \<noteq> Freeform \<longrightarrow>
      drawCanvas_layout W H sc [] sel = []
      \<and> drawExportCanvas_layout EW EH scaleX scaleY sc [] = [])
   \<and> (layoutMode sc = LeftBig \<or> layoutMode sc = RightBig \<longrightarrow>
      drawCanvas_layout W H sc [a] sel =
        [Call_drawImage a (if layoutMode sc = LeftBig then gap sc else W / 2 + gap sc / 2) (gap sc)
           (W / 2 - gap sc * 1.5) (H - gap sc * 2) 1]
      \<and> drawExportCanvas_layout EW EH scaleX scaleY sc [a] =
        [Call_drawImage a
           (if layoutMode sc = LeftBig then gap sc * scaleX else EW / 2 + gap sc * scaleX / 2)
           (gap sc * scaleY) (EW / 2 - gap sc * scaleX * 1.5) (EH - gap sc * scaleY * 2) 1])
   \<and> (layoutMode sc = TopBig \<or> layoutMode sc = BottomBig \<longrightarrow>
      drawCanvas_layout W H sc [a] sel =
        [Call_drawImage a (gap sc) (if layoutMode sc = TopBig then gap sc else H / 2 + gap sc / 2)
           (W - gap sc * 2) (H / 2 - gap sc * 1.5) 1]
      \<and> drawExportCanvas_layout EW EH scaleX scaleY sc [a] =
        [Call_drawImage a (gap sc * scaleX)
           (if layoutMode sc = TopBig then gap sc * scaleY else EH / 2 + gap sc * scaleY / 2)
           (EW - gap sc * scaleX * 2) (EH / 2 - gap sc * scaleY * 1.5) 1])
   \<and> 1 \<le> bigCols m \<and> 1 \<le> bigRows m c"
proof -
  have e: "layoutMode sc \<noteq> Freeform \<Longrightarrow>
      drawCanvas_layout W H sc [] sel = []
      \<and> drawExportCanvas_layout EW EH scaleX scaleY sc [] = []"
    by (cases "layoutMode sc")
       (simp_all add: drawCanvas_layout_def drawExportCanvas_layout_def Let_def)
  have lr: "layoutMode sc = LeftBig \<or> layoutMode sc = RightBig \<Longrightarrow>
      drawCanvas_layout W H sc [a] sel =
        [Call_drawImage a (if layoutMode sc = LeftBig then gap sc else W / 2 + gap sc / 2) (gap sc)
           (W / 2 - gap sc * 1.5) (H - gap sc * 2) 1]
      \<and> drawExportCanvas_layout EW EH scaleX scaleY sc [a] =
        [Call_drawImage a
           (if layoutMode sc = LeftBig then gap sc * scaleX else EW / 2 + gap sc * scaleX / 2)
           (gap sc * scaleY) (EW / 2 - gap sc * scaleX * 1.5) (EH - gap sc * scaleY * 2) 1]"
    by (auto simp add: drawCanvas_layout_def drawExportCanvas_layout_def Let_def)
  have tb: "layoutMode sc = TopBig \<or> layoutMode sc = BottomBig \<Longrightarrow>
      drawCanvas_layout W H sc [a] sel =
        [Call_drawImage a (gap sc) (if layoutMode sc = TopBig then gap sc else H / 2 + gap sc / 2)
           (W - gap sc * 2) (H / 2 - gap sc * 1.5) 1]
      \<and> drawExportCanvas_layout EW EH scaleX scaleY sc [a] =
        [Call_drawImage a (gap sc * scaleX)
           (if layoutMode sc = TopBig then gap sc * scaleY else EH / 2 + gap sc * scaleY / 2)
           (EW - gap sc * scaleX * 2) (EH / 2 - gap sc * scaleY * 1.5) 1]"
    by (auto simp add: drawCanvas_layout_def drawExportCanvas_layout_def Let_def)
  have d: "1 \<le> bigCols m \<and> 1 \<le> bigRows m c"
    by (simp add: bigCols_def bigRows_def)
  from e lr tb d show ?thesis by blast
qed

theorem empty_and_single_layout_witness:
  "drawCanvas_layout 800 600 gridDemo [] None = []
   \<and> drawExportCanvas_layout 2000 1500 (5/2) (5/2) gridDemo [] = []
   \<and> drawCanvas_layout 800 600 leftBigDemo [pic ''a''] None =
       [Call_drawImage (pic ''a'') 16 16 376 568 1]
   \<and> drawExportCanvas_layout 2000 1500 (5/2) (5/2) leftBigDemo [pic ''a''] =
       [Call_drawImage (pic ''a'') 40 40 940 1420 1]
   \<and> drawCanvas_layout 800 600 topBigDemo [pic ''a''] None =
       [Call_drawImage (pic ''a'') 16 16 768 276 1]
   \<and> drawExportCanvas_layout 2000 1500 (5/2) (5/2) topBigDemo [pic ''a''] =
       [Call_drawImage (pic ''a'') 40 40 1920 690 1]"
proof -
  have g: "layoutMode gridDemo \<noteq> Freeform" "gap gridDemo = 16" by (simp_all add: gridDemo_def)
  have l: "layoutMode leftBigDemo = LeftBig" "gap leftBigDemo = 16"
    by (simp_all add: leftBigDemo_def gridDemo_def)
  have t: "layoutMode topBigDemo = TopBig" "gap topBigDemo = 16"
    by (simp_all add: topBigDemo_def gridDemo_def)
  show ?thesis
    using empty_and_single_layout [of gridDemo 800 600 None 2000 1500 "5/2" "5/2" "pic ''a''" 0 0]
          empty_and_single_layout [of leftBigDemo 800 600 None 2000 1500 "5/2" "5/2" "pic ''a''" 0 0]
          empty_and_single_layout [of topBigDemo 800 600 None 2000 1500 "5/2" "5/2" "pic ''a''" 0 0]
    by (simp add: g l t)
qed

section \<open>The hit test of a text layer\<close>

lemma rotate_back:
  fixes u v t :: real
  shows "(u * cos t - v * sin t) * cos (- t) - (u * sin t + v * cos t) * sin (- t) = u"
    and "(u * cos t - v * sin t) * sin (- t) + (u * sin t + v * cos t) * cos (- t) = v"
proof -
  have "(u * cos t - v * sin t) * cos (- t) - (u * sin t + v * cos t) * sin (- t)
        = u * (cos t * cos t) + u * (sin t * sin t)"
    by (simp add: algebra_simps)
  also have "\<dots> = u * (cos t * cos t + sin t * sin t)" by (simp only: distrib_left)
  also have "\<dots> = u" by simp
  finally show "(u * cos t - v * sin t) * cos (- t) - (u * sin t + v * cos t) * sin (- t) = u" .
  have "(u * cos t - v * sin t) * sin (- t) + (u * sin t + v * cos t) * cos (- t)
        = v * (cos t * cos t) + v * (sin t * sin t)"
    by (simp add: algebra_simps)
  also have "\<dots> = v * (cos t * cos t + sin t * sin t)" by (simp only: distrib_left)
  also have "\<dots> = v" by simp
  finally show "(u * cos t - v * sin t) * sin (- t) + (u * sin t + v * cos t) * cos (- t) = v" .
qed

lemma hitText_local:
  "hitText mt layer
     (txt_x layer + (u * cos (rotation layer * pi / 180) - v * sin (rotation layer * pi / 180)))
     (txt_y layer + (u * sin (rotation layer * pi / 180) + v * cos (rotation layer * pi / 180)))
   = (\<bar>u\<bar> < (mt (fontSize layer) (fontFamily layer) (txt_text layer) + padding layer * 2) / 2
      \<and> \<bar>v\<bar> < (fontSize layer + padding layer * 2) / 2)"
  unfolding hitText_def Let_def add_diff_cancel_left' rotate_back ..

text \<open>
  C5. With \<open>a\<close> the layer's rotation in radians, the pointer at the layer's position plus
  the rotation by \<open>a\<close> of the local point \<open>(u, v)\<close> is a hit exactly when \<open>(u, v)\<close> lies in the
  open box of width \<open>measured width + 2 padding\<close> and height \<open>fontSize + 2 padding\<close> centred at
  the origin. So the pointer at the layer's position is a hit at every rotation when the box
  has positive width and height, and a pointer on the box's local x-axis at a distance of at
  least half the width is a miss at every rotation.
\<close>

theorem text_hit_test:
  "let a = rotation layer * pi / 180;
       boxW = mt (fontSize layer) (fontFamily layer) (txt_text layer) + padding layer * 2;
       boxH = fontSize layer + padding layer * 2
   in (hitText mt layer (txt_x layer + (u * cos a - v * sin a)) (txt_y layer + (u * sin a + v * cos a))
         \<longleftrightarrow> \<bar>u\<bar> < boxW / 2 \<and> \<bar>v\<bar> < boxH / 2)
    \<and> (0 < boxW \<and> 0 < boxH \<longrightarrow> hitText mt layer (txt_x layer) (txt_y layer))
    \<and> (boxW / 2 \<le> \<bar>d\<bar> \<longrightarrow> \<not> hitText mt layer (txt_x layer + d * cos a) (txt_y layer + d * sin a))"
proof -
  let ?a = "rotation layer * pi / 180"
  let ?W = "mt (fontSize layer) (fontFamily layer) (txt_text layer) + padding layer * 2"
  let ?H = "fontSize layer + padding layer * 2"
  have gen: "hitText mt layer (txt_x layer + (u * cos ?a - v * sin ?a))
               (txt_y layer + (u * sin ?a + v * cos ?a))
             \<longleftrightarrow> \<bar>u\<bar> < ?W / 2 \<and> \<bar>v\<bar> < ?H / 2" for u v
    by (rule hitText_local)
  have centre: "hitText mt layer (txt_x layer) (txt_y layer)" if "0 < ?W \<and> 0 < ?H"
    using gen [of 0 0] that by simp
  have axis: "\<not> hitText mt layer (txt_x layer + d * cos ?a) (txt_y layer + d * sin ?a)"
    if "?W / 2 \<le> \<bar>d\<bar>"
    using gen [of d 0] that by simp
  show ?thesis unfolding Let_def using gen centre axis by blast
qed

theorem text_hit_test_witness:
  "hitText demoMeasure textDemo 100 100
   \<and> \<not> hitText demoMeasure textDemo 100 207
   \<and> hitText demoMeasure textDemo 110 205"
proof -
  have a: "rotation textDemo * pi / 180 = pi / 2" by (simp add: textDemo_def)
  have w: "demoMeasure (fontSize textDemo) (fontFamily textDemo) (txt_text textDemo)
           + padding textDemo * 2 = 212"
    by (simp add: demoMeasure_def textDemo_def)
  have h: "fontSize textDemo + padding textDemo * 2 = 68" by (simp add: textDemo_def)
  have xy: "txt_x textDemo = 100" "txt_y textDemo = 100" by (simp_all add: textDemo_def)
  note th = text_hit_test [of textDemo demoMeasure, unfolded Let_def a w h xy cos_pi_half sin_pi_half]
  from th [of 0 0 0] have c1: "hitText demoMeasure textDemo 100 100" by simp
  from th [of 0 0 107] have c2: "\<not> hitText demoMeasure textDemo 100 207" by simp
  from th [of 105 "-10" 0] have c3: "hitText demoMeasure textDemo 110 205" by simp
  from c1 c2 c3 show ?thesis by blast
qed

section \<open>Free placement\<close>

lemma forEach_no_index:
  assumes "\<And>x i. f x i = c x"
  shows "forEach f xs i = concat (map c xs)"
  by (induction xs arbitrary: i) (simp_all add: assms)

lemma freeformCell_cases:
  "freeformCell loaded sel a i =
     (case (find (\<lambda>li. bm_src li = img_url a) loaded, img_x a, img_y a, img_width a, img_height a) of
        (Some b, Some x, Some y, Some w, Some h) \<Rightarrow>
          DrawImage b x y w h #
          (if Some (img_id a) = sel
           then [StrokeStyle ''#84cc16'', LineWidth 2, StrokeRect x y w h, FillStyle ''#84cc16'',
                 FillRect (x + w - 5) (y + h - 5) 10 10]
           else [])
      | _ \<Rightarrow> [])"
  by (simp add: freeformCell_def Let_def split: option.splits)

lemma sort_order_facts:
  "sorted (map zIndexOr0 (sort_key zIndexOr0 imgs))
   \<and> (\<forall>k. filter (\<lambda>a. zIndexOr0 a = k) (sort_key zIndexOr0 imgs)
          = filter (\<lambda>a. zIndexOr0 a = k) imgs)"
  by (simp add: sort_key_stable)

lemma drawCanvas_layout_Freeform:
  "layoutMode sc = Freeform \<Longrightarrow>
   drawCanvas_layout W H sc loaded sel =
     forEach (freeformCell loaded sel) (sort_key zIndexOr0 (images sc)) 0"
  by (simp add: drawCanvas_layout_def Let_def)

lemma drawExportCanvas_layout_Freeform:
  "layoutMode sc = Freeform \<Longrightarrow>
   drawExportCanvas_layout W H sx sy sc loaded =
     forEach (exportFreeformCell sx sy (images sc) loaded) (sort_key zIndexOr0 (images sc)) 0"
  by (simp add: drawExportCanvas_layout_def Let_def)

text \<open>
  C10 as stated fails for the export: an image stored at (50, 50) with size 300 by 200 is
  drawn by the export, at the scale 5/2, at (125, 125) with size 750 by 500.
\<close>

theorem freeform_export_rect_counterexample:
  "drawExportCanvas_layout 2000 1500 (5/2) (5/2) freeDemo [pic ''ub'', pic ''ua'', pic ''uc'']
     = [DrawImage (pic ''ua'') 125 125 750 500, DrawImage (pic ''ub'') 200 200 750 500]
   \<and> drawExportCanvas_layout 2000 1500 (5/2) (5/2) freeDemo [pic ''ub'', pic ''ua'', pic ''uc'']
     \<noteq> [DrawImage (pic ''ua'') 50 50 300 200, DrawImage (pic ''ub'') 80 80 300 200]
   \<and> map (\<lambda>a. (img_id a, img_x a, img_y a, img_width a, img_height a)) (take 2 freeImages)
     = [(''b'', Some 80, Some 80, Some 300, Some 200), (''a'', Some 50, Some 50, Some 300, Some 200)]"
proof -
  have srt: "sort_key zIndexOr0 (images freeDemo) =
             [freeImages ! 2, freeImages ! 1, freeImages ! 3, freeImages ! 0]"
    by (simp add: freeDemo_def freeImages_def zIndexOr0_def)
  have m: "layoutMode freeDemo = Freeform" by (simp add: freeDemo_def)
  have e: "drawExportCanvas_layout 2000 1500 (5/2) (5/2) freeDemo [pic ''ub'', pic ''ua'', pic ''uc'']
     = [DrawImage (pic ''ua'') 125 125 750 500, DrawImage (pic ''ub'') 200 200 750 500]"
    unfolding drawExportCanvas_layout_Freeform [OF m] srt
    by (simp add: freeDemo_def freeImages_def exportFreeformCell_def at_index_def)
  have s: "map (\<lambda>a. (img_id a, img_x a, img_y a, img_width a, img_height a)) (take 2 freeImages)
     = [(''b'', Some 80, Some 80, Some 300, Some 200), (''a'', Some 50, Some 50, Some 300, Some 200)]"
    by (simp add: freeImages_def)
  show ?thesis unfolding e using s by simp
qed

text \<open>
  C10, amended. In free placement both renderers go through the images in the order of a
  stable sort by \<open>zIndex || 0\<close>: ascending, images of equal z-index in the order of the list.
  An image with \<open>x\<close>, \<open>y\<close>, \<open>width\<close> or \<open>height\<close> missing, or with no decoded picture (none with
  its URL as \<open>src\<close> in the preview; none at its position in the export), is skipped, nothing
  is drawn for it and nothing fails. Every other image is drawn with one \<open>drawImage\<close> call
  and no clipping or fitting: by the preview at its stored rectangle (the selected image
  then gets its outline and handle), by the export at its stored rectangle scaled by
  \<open>scaleX\<close> across and \<open>scaleY\<close> down.
\<close>

theorem freeform_draw_order:
  assumes "layoutMode sc = Freeform"
  shows "let order = sort_key zIndexOr0 (images sc)
         in sorted (map zIndexOr0 order)
          \<and> (\<forall>k. filter (\<lambda>a. zIndexOr0 a = k) order = filter (\<lambda>a. zIndexOr0 a = k) (images sc))
          \<and> drawCanvas_layout W H sc loaded sel =
              concat (map (\<lambda>a.
                case (find (\<lambda>li. bm_src li = img_url a) loaded,
                      img_x a, img_y a, img_width a, img_height a) of
                  (Some b, Some x, Some y, Some w, Some h) \<Rightarrow>
                    DrawImage b x y w h #
                    (if Some (img_id a) = sel
                     then [StrokeStyle ''#84cc16'', LineWidth 2, StrokeRect x y w h,
                           FillStyle ''#84cc16'', FillRect (x + w - 5) (y + h - 5) 10 10]
                     else [])
                | _ \<Rightarrow> []) order)
          \<and> drawExportCanvas_layout EW EH scaleX scaleY sc bitmaps =
              concat (map (\<lambda>a.
                case (at_index bitmaps (findIndex (\<lambda>i. img_id i = img_id a) (images sc)),
                      img_x a, img_y a, img_width a, img_height a) of
                  (Some b, Some x, Some y, Some w, Some h) \<Rightarrow>
                    [DrawImage b (x * scaleX) (y * scaleY) (w * scaleX) (h * scaleY)]
                | _ \<Rightarrow> []) order)"
proof -
  let ?order = "sort_key zIndexOr0 (images sc)"
  have p: "drawCanvas_layout W H sc loaded sel =
           concat (map (\<lambda>a.
                case (find (\<lambda>li. bm_src li = img_url a) loaded,
                      img_x a, img_y a, img_width a, img_height a) of
                  (Some b, Some x, Some y, Some w, Some h) \<Rightarrow>
                    DrawImage b x y w h #
                    (if Some (img_id a) = sel
                     then [StrokeStyle ''#84cc16'', LineWidth 2, StrokeRect x y w h,
                           FillStyle ''#84cc16'', FillRect (x + w - 5) (y + h - 5) 10 10]
                     else [])
                | _ \<Rightarrow> []) ?order)"
    unfolding drawCanvas_layout_Freeform [OF assms]
    by (rule forEach_no_index) (rule freeformCell_cases)
  have e: "drawExportCanvas_layout EW EH scaleX scaleY sc bitmaps =
           concat (map (\<lambda>a.
                case (at_index bitmaps (findIndex (\<lambda>i. img_id i = img_id a) (images sc)),
                      img_x a, img_y a, img_width a, img_height a) of
                  (Some b, Some x, Some y, Some w, Some h) \<Rightarrow>
                    [DrawImage b (x * scaleX) (y * scaleY) (w * scaleX) (h * scaleY)]
                | _ \<Rightarrow> []) ?order)"
    unfolding drawExportCanvas_layout_Freeform [OF assms]
    by (rule forEach_no_index) (simp add: exportFreeformCell_def)
  from sort_order_facts [of "images sc"] p e show ?thesis unfolding Let_def by blast
qed

theorem freeform_draw_order_witness:
  "sort_key zIndexOr0 (images freeDemo) = [freeImages ! 2, freeImages ! 1, freeImages ! 3, freeImages ! 0]
   \<and> drawCanvas_layout 800 600 freeDemo [pic ''ub'', pic ''ua'', pic ''uc''] None
       = [DrawImage (pic ''ua'') 50 50 300 200, DrawImage (pic ''ub'') 80 80 300 200]
   \<and> drawExportCanvas_layout 2000 1500 (5/2) (5/2) freeDemo [pic ''ub'', pic ''ua'', pic ''uc'']
       = [DrawImage (pic ''ua'') 125 125 750 500, DrawImage (pic ''ub'') 200 200 750 500]"
proof -
  have srt: "sort_key zIndexOr0 (images freeDemo) =
             [freeImages ! 2, freeImages ! 1, freeImages ! 3, freeImages ! 0]"
    by (simp add: freeDemo_def freeImages_def zIndexOr0_def)
  have m: "layoutMode freeDemo = Freeform" by (simp add: freeDemo_def)
  note th = freeform_draw_order [OF m, of 800 600 "[pic ''ub'', pic ''ua'', pic ''uc'']" None
      2000 1500 "5/2" "5/2" "[pic ''ub'', pic ''ua'', pic ''uc'']", unfolded Let_def srt]
  have p: "drawCanvas_layout 800 600 freeDemo [pic ''ub'', pic ''ua'', pic ''uc''] None
       = [DrawImage (pic ''ua'') 50 50 300 200, DrawImage (pic ''ub'') 80 80 300 200]"
    using th [THEN conjunct2, THEN conjunct2, THEN conjunct1]
    by (simp add: freeImages_def pic_def)
  have e: "drawExportCanvas_layout 2000 1500 (5/2) (5/2) freeDemo [pic ''ub'', pic ''ua'', pic ''uc'']
       = [DrawImage (pic ''ua'') 125 125 750 500, DrawImage (pic ''ub'') 200 200 750 500]"
    using th [THEN conjunct2, THEN conjunct2, THEN conjunct2]
    by (simp add: freeDemo_def freeImages_def at_index_def)
  from srt p e show ?thesis by blast
qed

section \<open>Pointer-down outside free placement\<close>

lemma textHitLoop_Some: "textHitLoop mt x y ls = Some l \<Longrightarrow> l \<in> set ls \<and> hitText mt l x y"
  by (induction ls) (auto split: if_splits)












section \<open>The export against the preview\<close>

lemma forEach_map:
  assumes "\<And>x i. x \<in> set xs \<Longrightarrow> f' x i = map h (f x i)"
  shows "forEach f' xs i = map h (forEach f xs i)"
  using assms by (induction xs arbitrary: i) simp_all

lemma scale_cell:
  fixes a b g c s :: real
  shows "(a * s - b * (g * s)) / c = (a - b * g) / c * s"
  by (simp add: algebra_simps diff_divide_distrib)

lemma scale_half_cell:
  fixes a b g c s :: real
  shows "(a * s / 2 - g * s * 1.5 - b * (g * s)) / c = (a / 2 - g * 1.5 - b * g) / c * s"
  by (simp add: algebra_simps diff_divide_distrib)

lemma exportGridCell_scale:
  "exportGridCell (W * sx) (H * sy) (g * sx) (g * sy) cols rows img i =
   map (spec_scale sx sy) (gridCell W H g cols rows img i)"
  unfolding exportGridCell_single gridCell_single scale_cell
  by (simp add: algebra_simps)

lemma exportLeftRightCell_scale:
  "exportLeftRightCell isLeft (W * sx) (H * sy) (g * sx) (g * sy) cols rows img i =
   map (spec_scale sx sy) (leftRightCell isLeft W H g cols rows img i)"
  unfolding exportLeftRightCell_single leftRightCell_single scale_cell scale_half_cell
  by (simp add: algebra_simps)

lemma topBottomCell_single:
  "topBottomCell isTopBig W H g cols rows img i =
     [Call_drawImage img
        (g + real (i mod cols) * ((W - (real cols + 1) * g) / real cols + g))
        ((if isTopBig then H / 2 + g / 2 else g) +
           real (i div cols) * ((H / 2 - g * 1.5 - (real rows - 1) * g) / real rows + g))
        ((W - (real cols + 1) * g) / real cols)
        ((H / 2 - g * 1.5 - (real rows - 1) * g) / real rows) 1]"
  by (simp add: topBottomCell_def Let_def)

lemma exportTopBottomCell_single:
  "exportTopBottomCell isTopBig W H gx gy cols rows img i =
     [Call_drawImage img
        (gx + real (i mod cols) * ((W - (real cols + 1) * gx) / real cols + gx))
        ((if isTopBig then H / 2 + gy / 2 else gy) +
           real (i div cols) * ((H / 2 - gy * 1.5 - (real rows - 1) * gy) / real rows + gy))
        ((W - (real cols + 1) * gx) / real cols)
        ((H / 2 - gy * 1.5 - (real rows - 1) * gy) / real rows) 1]"
  by (simp add: exportTopBottomCell_def Let_def)

lemma exportTopBottomCell_scale:
  "exportTopBottomCell isTop (W * sx) (H * sy) (g * sx) (g * sy) cols rows img i =
   map (spec_scale sx sy) (topBottomCell isTop W H g cols rows img i)"
  unfolding exportTopBottomCell_single topBottomCell_single scale_cell scale_half_cell
  by (simp add: algebra_simps)

lemma exportBlurCell_scale:
  "exportBlurCell (W * sx) (H * sy) cols rows img i =
   map (spec_scale sx sy) (blurCell W H cols rows img i)"
  by (simp add: exportBlurCell_def blurCell_def Let_def)

text \<open>The layout step, mode by mode, with the calls of \<open>drawImage\<close> not expanded.\<close>

lemma layout_scale_Grid:
  assumes "layoutMode sc = Grid"
  shows "drawExportCanvas_layout (W * sx) (H * sy) sx sy sc loaded =
         map (spec_scale sx sy) (drawCanvas_layout W H sc loaded sel)"
  unfolding drawCanvas_layout_Grid [OF assms] drawExportCanvas_layout_Grid [OF assms]
  by (rule forEach_map) (rule exportGridCell_scale)

lemma layout_scale_LeftRight:
  assumes "layoutMode sc = LeftBig \<or> layoutMode sc = RightBig"
  shows "drawExportCanvas_layout (W * sx) (H * sy) sx sy sc loaded =
         map (spec_scale sx sy) (drawCanvas_layout W H sc loaded sel)"
proof -
  have cells: "forEach (exportLeftRightCell b (W * sx) (H * sy) (gap sc * sx) (gap sc * sy) c r) xs 0
      = map (spec_scale sx sy) (forEach (leftRightCell b W H (gap sc) c r) xs 0)" for b c r xs
    by (rule forEach_map) (rule exportLeftRightCell_scale)
  have half: "W * sx / 2 + gap sc * sx / 2 = (W / 2 + gap sc / 2) * sx"
    "H * sy / 2 + gap sc * sy / 2 = (H / 2 + gap sc / 2) * sy"
    "W * sx / 2 - gap sc * sx * 1.5 = (W / 2 - gap sc * 1.5) * sx"
    "H * sy / 2 - gap sc * sy * 1.5 = (H / 2 - gap sc * 1.5) * sy"
    "H * sy - gap sc * sy * 2 = (H - gap sc * 2) * sy"
    "W * sx - gap sc * sx * 2 = (W - gap sc * 2) * sx"
    "W * sx / 2 - gap sc * sx * 3 / 2 = (W / 2 - gap sc * 3 / 2) * sx"
    "H * sy / 2 - gap sc * sy * 3 / 2 = (H / 2 - gap sc * 3 / 2) * sy"
    by (simp_all add: algebra_simps)
  from assms show ?thesis
    by (auto simp add: drawCanvas_layout_def drawExportCanvas_layout_def Let_def cells half)
qed

lemma layout_scale_TopBottom:
  assumes "layoutMode sc = TopBig \<or> layoutMode sc = BottomBig"
  shows "drawExportCanvas_layout (W * sx) (H * sy) sx sy sc loaded =
         map (spec_scale sx sy) (drawCanvas_layout W H sc loaded sel)"
proof -
  have cells: "forEach (exportTopBottomCell b (W * sx) (H * sy) (gap sc * sx) (gap sc * sy) c r) xs 0
      = map (spec_scale sx sy) (forEach (topBottomCell b W H (gap sc) c r) xs 0)" for b c r xs
    by (rule forEach_map) (rule exportTopBottomCell_scale)
  have half: "W * sx / 2 + gap sc * sx / 2 = (W / 2 + gap sc / 2) * sx"
    "H * sy / 2 + gap sc * sy / 2 = (H / 2 + gap sc / 2) * sy"
    "W * sx / 2 - gap sc * sx * 1.5 = (W / 2 - gap sc * 1.5) * sx"
    "H * sy / 2 - gap sc * sy * 1.5 = (H / 2 - gap sc * 1.5) * sy"
    "H * sy - gap sc * sy * 2 = (H - gap sc * 2) * sy"
    "W * sx - gap sc * sx * 2 = (W - gap sc * 2) * sx"
    "W * sx / 2 - gap sc * sx * 3 / 2 = (W / 2 - gap sc * 3 / 2) * sx"
    "H * sy / 2 - gap sc * sy * 3 / 2 = (H / 2 - gap sc * 3 / 2) * sy"
    by (simp_all add: algebra_simps)
  from assms show ?thesis
    by (auto simp add: drawCanvas_layout_def drawExportCanvas_layout_def Let_def cells half)
qed

lemma layout_scale_SingleBlur:
  assumes "layoutMode sc = SingleBlur"
  shows "drawExportCanvas_layout (W * sx) (H * sy) sx sy sc loaded =
         map (spec_scale sx sy) (drawCanvas_layout W H sc loaded sel)"
proof -
  have cells: "forEach (exportBlurCell (W * sx) (H * sy) c r) xs 0
      = map (spec_scale sx sy) (forEach (blurCell W H c r) xs 0)" for c r xs
    by (rule forEach_map) (rule exportBlurCell_scale)
  have focal: "(W * sx - W * sx * 0.8) / 2 = (W - W * 0.8) / 2 * sx"
    "(H * sy - H * sy * 0.9) / 2 = (H - H * 0.9) / 2 * sy"
    "W * sx * 0.8 = W * 0.8 * sx" "H * sy * 0.9 = H * 0.9 * sy"
    by (simp_all add: algebra_simps)
  from assms show ?thesis
    by (simp add: drawCanvas_layout_def drawExportCanvas_layout_def Let_def cells focal)
qed

text \<open>Free placement: the two ways to find an image's picture agree on aligned pictures.\<close>

lemma findIndex_distinct:
  assumes "distinct (map key xs)" and "k < length xs"
  shows "findIndex (\<lambda>i. key i = key (xs ! k)) xs = Some k"
  using assms
proof (induction xs arbitrary: k)
  case Nil
  then show ?case by simp
next
  case (Cons x xs)
  show ?case
  proof (cases k)
    case 0
    then show ?thesis by simp
  next
    case (Suc j)
    with Cons.prems have j: "j < length xs" and d: "distinct (map key xs)"
      and nx: "key x \<notin> key ` set xs" by simp_all
    from j nx have "key x \<noteq> key (xs ! j)" by (metis imageI nth_mem)
    with Cons.IH [OF d j] Suc show ?thesis by simp
  qed
qed

lemma find_aligned:
  assumes "aligned imgs loaded" and "k < length imgs"
  shows "find (\<lambda>li. bm_src li = img_url (imgs ! k)) loaded = Some (loaded ! k)"
proof -
  from assms(1) have len: "length loaded = length imgs"
    and src: "\<And>j. j < length imgs \<Longrightarrow> bm_src (loaded ! j) = img_url (imgs ! j)"
    and d: "distinct (map img_url imgs)"
    by (simp_all add: aligned_def)
  have "\<not> bm_src (loaded ! j) = img_url (imgs ! k)" if "j < k" for j
  proof -
    from that assms(2) have j: "j < length imgs" by simp
    from d j assms(2) that have "img_url (imgs ! j) \<noteq> img_url (imgs ! k)"
      by (metis (no_types, lifting) distinct_conv_nth length_map nat_neq_iff nth_map)
    with src [OF j] show ?thesis by simp
  qed
  with src [OF assms(2)] assms(2) len show ?thesis
    unfolding find_Some_iff by (intro exI [of _ k]) simp
qed

lemma freeform_cell_scale:
  assumes "aligned imgs loaded" and "a \<in> set imgs"
  shows "exportFreeformCell sx sy imgs loaded a i = map (spec_scale sx sy) (freeformCell loaded None a j)"
proof -
  from assms(2) obtain k where k: "k < length imgs" and a: "a = imgs ! k"
    by (auto simp: in_set_conv_nth)
  from assms(1) have d: "distinct (map img_id imgs)" and len: "length loaded = length imgs"
    by (simp_all add: aligned_def)
  have f: "find (\<lambda>li. bm_src li = img_url a) loaded = Some (loaded ! k)"
    unfolding a by (rule find_aligned [OF assms(1) k])
  have g: "at_index loaded (findIndex (\<lambda>i. img_id i = img_id a) imgs) = Some (loaded ! k)"
    unfolding a findIndex_distinct [OF d k] using k len by (simp add: at_index_def)
  show ?thesis
    unfolding exportFreeformCell_def freeformCell_def f g
    by (simp split: option.splits)
qed

lemma layout_scale_Freeform:
  assumes "layoutMode sc = Freeform" and "aligned (images sc) loaded"
  shows "drawExportCanvas_layout (W * sx) (H * sy) sx sy sc loaded =
         map (spec_scale sx sy) (drawCanvas_layout W H sc loaded None)"
  unfolding drawCanvas_layout_Freeform [OF assms(1)] drawExportCanvas_layout_Freeform [OF assms(1)]
  by (rule forEach_map) (simp add: freeform_cell_scale [OF assms(2)])

lemma layout_scale:
  assumes "layoutMode sc = Freeform \<longrightarrow> aligned (images sc) loaded"
  shows "drawExportCanvas_layout (W * sx) (H * sy) sx sy sc loaded =
         map (spec_scale sx sy) (drawCanvas_layout W H sc loaded None)"
proof (cases "layoutMode sc")
  case Grid
  then show ?thesis by (rule layout_scale_Grid)
next
  case LeftBig
  then show ?thesis by (intro layout_scale_LeftRight) simp
next
  case RightBig
  then show ?thesis by (intro layout_scale_LeftRight) simp
next
  case TopBig
  then show ?thesis by (intro layout_scale_TopBottom) simp
next
  case BottomBig
  then show ?thesis by (intro layout_scale_TopBottom) simp
next
  case SingleBlur
  then show ?thesis by (rule layout_scale_SingleBlur)
next
  case Freeform
  with assms show ?thesis by (intro layout_scale_Freeform) simp_all
qed

text \<open>The background, the watermark and the text layers.\<close>

lemma background_scale:
  "drawBackground (W * sx) (H * sy) bg b = map (spec_scale sx sy) (drawBackground W H bg b)"
  by (simp add: drawBackground_def split: option.splits)

lemma watermark_size_scale:
  fixes W sx sz a :: real
  shows "W * sx / 100 * sz = W / 100 * sz * sx"
    and "W / 100 * sz * sx / a = W / 100 * sz / a * sx"
    and "(W * sx - sz * sx) / 2 = (W - sz) / 2 * sx"
  by (simp_all add: left_diff_distrib)

lemma exportWatermarkRect_eq:
  "exportWatermarkRect (W * sx) (H * sy) (g * sx) (g * sy) wm b =
   (case watermarkRect W H g wm b of
      (x, y, w, h) \<Rightarrow>
        (x * sx,
         (case wm_position wm of
            TopLeft \<Rightarrow> y * sy
          | TopRight \<Rightarrow> y * sy
          | BottomLeft \<Rightarrow> H * sy - h * sx - g * sy
          | BottomRight \<Rightarrow> H * sy - h * sx - g * sy
          | Center \<Rightarrow> (H * sy - h * sx) / 2),
         w * sx, h * sx))"
  unfolding watermarkRect_def exportWatermarkRect_def Let_def watermark_size_scale
  by (cases "wm_position wm") (simp_all add: left_diff_distrib)

lemma watermarkRect_scale:
  assumes "watermarkRect W H g wm b = (x, y, w, h)"
      and "exportWatermarkRect (W * sx) (H * sy) (g * sx) (g * sy) wm b = (ex, ey, ew, eh)"
  shows "ex = x * sx \<and> ew = w * sx \<and> eh = h * sx"
  using assms(2) unfolding exportWatermarkRect_eq assms(1) by simp

lemma watermarkRect_scale_uniform:
  "exportWatermarkRect (W * s) (H * s) (g * s) (g * s) wm b =
   (case watermarkRect W H g wm b of (x, y, w, h) \<Rightarrow> (x * s, y * s, w * s, h * s))"
  unfolding watermarkRect_def exportWatermarkRect_def Let_def watermark_size_scale
  by (cases "wm_position wm") (simp_all add: left_diff_distrib)

lemma watermark_scale_uniform:
  "drawExportCanvas_watermark (W * s) (H * s) s s sc b =
   map (spec_scale s s) (drawCanvas_watermark W H sc b)"
  unfolding drawExportCanvas_watermark_def drawCanvas_watermark_def watermarkRect_scale_uniform
  by (simp split: option.splits prod.splits)

lemma exportWatermarkRect_anchor:
  "exportWatermarkRect (W * sx) (H * sy) (g * sx) (g * sy) wm b =
   (case watermarkRect W H g wm b of
      (x, y, w, h) \<Rightarrow>
        (x * sx,
         (case wm_position wm of
            TopLeft \<Rightarrow> y * sy
          | TopRight \<Rightarrow> y * sy
          | BottomLeft \<Rightarrow> (y + h) * sy - h * sx
          | BottomRight \<Rightarrow> (y + h) * sy - h * sx
          | Center \<Rightarrow> (y + h / 2) * sy - h * sx / 2),
         w * sx, h * sx))"
  unfolding exportWatermarkRect_eq
  by (cases "wm_position wm")
     (simp_all add: watermarkRect_def Let_def algebra_simps diff_divide_distrib add_divide_distrib)

lemma exportWatermark_calls:
  "drawExportCanvas_watermark (W * sx) (H * sy) sx sy sc bmp =
   (case (watermark sc, bmp) of
      (Some wm, Some b) \<Rightarrow>
        (case watermarkRect W H (gap sc) wm b of
           (x, y, w, h) \<Rightarrow>
             [Save, GlobalAlpha (wm_opacity wm),
              DrawImage b (x * sx)
                (case wm_position wm of
                   TopLeft \<Rightarrow> y * sy
                 | TopRight \<Rightarrow> y * sy
                 | BottomLeft \<Rightarrow> (y + h) * sy - h * sx
                 | BottomRight \<Rightarrow> (y + h) * sy - h * sx
                 | Center \<Rightarrow> (y + h / 2) * sy - h * sx / 2)
                (w * sx) (h * sx),
              Restore])
    | _ \<Rightarrow> [])"
  unfolding drawExportCanvas_watermark_def exportWatermarkRect_anchor
  by (simp split: option.splits prod.splits)

text \<open>The text layers of the export, call by call.\<close>

lemma exportTextLayer_calls:
  "drawExportTextLayer mt sx sy l =
   map (\<lambda>c. if is_FillRect c
             then FillRect
                    (- (mt (fontSize l * sy) (quoteFamily (fontFamily l)) (txt_text l) + padding l * sy * 2) / 2)
                    (- (fontSize l * sy + padding l * sy * 2) / 2)
                    (mt (fontSize l * sy) (quoteFamily (fontFamily l)) (txt_text l) + padding l * sy * 2)
                    (fontSize l * sy + padding l * sy * 2)
             else quoteFont (spec_scale sx sy c))
     (drawTextLayer mt l)"
  by (simp add: drawExportTextLayer_def drawTextLayer_def Let_def field_simps)

lemma exportText_loaded:
  assumes "\<forall>l\<in>set ls. fl (fontSize l * sy) (fontFamily l)"
  shows "drawExportCanvas_text fl mt sx sy ls = Inr (concat (map (drawExportTextLayer mt sx sy) ls))"
  using assms by (induction ls) simp_all

lemma exportText_rejected:
  assumes "\<exists>l\<in>set ls. \<not> fl (fontSize l * sy) (fontFamily l)"
  shows "\<exists>e. drawExportCanvas_text fl mt sx sy ls = Inl e"
  using assms
proof (induction ls)
  case Nil
  then show ?case by simp
next
  case (Cons a ls)
  show ?case
  proof (cases "fl (fontSize a * sy) (fontFamily a)")
    case False
    then show ?thesis by simp
  next
    case True
    with Cons.prems have "\<exists>l\<in>set ls. \<not> fl (fontSize l * sy) (fontFamily l)" by auto
    from Cons.IH [OF this] obtain e where "drawExportCanvas_text fl mt sx sy ls = Inl e" ..
    with True show ?thesis by simp
  qed
qed

lemma textLayer_scale_no_box:
  "filter (\<lambda>c. \<not> is_FillRect c) (drawExportTextLayer mt sx sy l) =
   map (quoteFont \<circ> spec_scale sx sy) (filter (\<lambda>c. \<not> is_FillRect c) (drawTextLayer mt l))"
  by (simp add: drawExportTextLayer_def drawTextLayer_def Let_def)

lemma text_scale_no_box:
  "filter (\<lambda>c. \<not> is_FillRect c) (concat (map (drawExportTextLayer mt sx sy) ls)) =
   map (quoteFont \<circ> spec_scale sx sy)
     (filter (\<lambda>c. \<not> is_FillRect c) (concat (map (drawTextLayer mt) ls)))"
  by (induction ls) (simp_all add: textLayer_scale_no_box)

text \<open>The picture that \<open>drawImage\<close> fits into a cell.\<close>

lemma drawImage_fitted:
  assumes "0 < bm_width img" and "0 < bm_height img"
  shows "\<exists>rx ry rw rh.
           drawImage fit z img x y w h ez =
             [Save, BeginPath, Rect x y w h, Clip, DrawImage img rx ry rw rh, Restore]
           \<and> rw * bm_height img = rh * bm_width img
           \<and> rx + rw / 2 = x + w / 2 \<and> ry + rh / 2 = y + h / 2
           \<and> (rh = h * (z * ez) \<or> rw = w * (z * ez))"
proof -
  let ?byHeight = "if fit = Cover then gt_quot (bm_width img / bm_height img) (js_div w h)
                   else lt_quot (bm_width img / bm_height img) (js_div w h)"
  let ?rh = "if ?byHeight then h * (z * ez) else (w * (z * ez)) / (bm_width img / bm_height img)"
  let ?rw = "if ?byHeight then (h * (z * ez)) * (bm_width img / bm_height img) else w * (z * ez)"
  have d: "drawImage fit z img x y w h ez =
           [Save, BeginPath, Rect x y w h, Clip,
            DrawImage img (x + (w - ?rw) / 2) (y + (h - ?rh) / 2) ?rw ?rh, Restore]"
    by (simp add: drawImage_def Let_def)
  have ar: "?rw * bm_height img = ?rh * bm_width img"
    using assms by (simp add: field_simps)
  have cx: "(x + (w - ?rw) / 2) + ?rw / 2 = x + w / 2" by (simp add: field_simps)
  have cy: "(y + (h - ?rh) / 2) + ?rh / 2 = y + h / 2" by (simp add: field_simps)
  have sz: "?rh = h * (z * ez) \<or> ?rw = w * (z * ez)" by simp
  from d ar cx cy sz show ?thesis by blast
qed

text \<open>At one scale for both axes: the body of \<open>drawImage\<close>, the text boxes, the whole drawing.\<close>

lemma js_div_scale: "0 < s \<Longrightarrow> js_div (w * s) (h * s) = js_div w h"
  by (simp add: js_div_def zero_less_mult_iff mult_less_0_iff)

lemma drawImage_scale:
  assumes "0 < s"
  shows "drawImage fit z img (x * s) (y * s) (w * s) (h * s) ez =
         map (spec_scale s s) (drawImage fit z img x y w h ez)"
proof -
  have m: "h * s * zm = h * zm * s" "w * s * zm = w * zm * s"
    "h * zm * s * r = h * zm * r * s" "w * zm * s / r = w * zm / r * s" for zm r :: real
    by simp_all
  show ?thesis
    unfolding drawImage_def Let_def js_div_scale [OF assms] m
    by (simp add: algebra_simps add_divide_distrib diff_divide_distrib)
qed

lemma expand_scale:
  assumes "0 < s"
  shows "expand fit z (spec_scale s s c) = map (spec_scale s s) (expand fit z c)"
  by (cases c) (simp_all add: drawImage_scale [OF assms])

lemma expandAll_scale:
  assumes "0 < s"
  shows "expandAll fit z (map (spec_scale s s) cs) = map (spec_scale s s) (expandAll fit z cs)"
  unfolding expandAll_def
  by (induction cs) (simp_all add: expand_scale [OF assms])

lemma textLayer_scale_uniform:
  assumes "0 < backgroundOpacity l \<longrightarrow>
           mt (fontSize l * s) (quoteFamily (fontFamily l)) (txt_text l)
             = mt (fontSize l) (fontFamily l) (txt_text l) * s"
  shows "drawExportTextLayer mt s s l = map (quoteFont \<circ> spec_scale s s) (drawTextLayer mt l)"
proof -
  have box: "- (a * s + p * s * 2) / 2 = - (a + p * 2) / 2 * s"
    "a * s + p * s * 2 = (a + p * 2) * s" for a p :: real
    by (simp_all add: algebra_simps)
  from assms show ?thesis
    unfolding drawExportTextLayer_def drawTextLayer_def Let_def
    by (auto simp add: box algebra_simps)
qed

lemma text_scale_uniform:
  assumes "\<forall>l\<in>set ls. 0 < backgroundOpacity l \<longrightarrow>
           mt (fontSize l * s) (quoteFamily (fontFamily l)) (txt_text l)
             = mt (fontSize l) (fontFamily l) (txt_text l) * s"
  shows "concat (map (drawExportTextLayer mt s s) ls) =
         map (quoteFont \<circ> spec_scale s s) (concat (map (drawTextLayer mt) ls))"
  using assms by (induction ls) (simp_all add: textLayer_scale_uniform)

text \<open>
  C1 as stated fails when the two scale factors differ. From a preview of 1000 by 500 to the
  export of 2000 by 1500 (\<open>scaleX = 2\<close>, \<open>scaleY = 3\<close>) the preview's watermark rectangle
  (784, 334, 200, 150), scaled per axis, is (1568, 1002, 400, 450); the export draws the
  watermark at (1568, 1152, 400, 300): its height follows the width, by the picture's aspect
  ratio.
\<close>

theorem export_watermark_counterexample:
  "drawCanvas_watermark 1000 500 wmDemo (Some (pic ''w''))
     = [Save, GlobalAlpha 0.5, DrawImage (pic ''w'') 784 334 200 150, Restore]
   \<and> map (spec_scale (2000 / 1000) (1500 / 500)) (drawCanvas_watermark 1000 500 wmDemo (Some (pic ''w'')))
     = [Save, GlobalAlpha 0.5, DrawImage (pic ''w'') 1568 1002 400 450, Restore]
   \<and> drawExportCanvas_watermark 2000 1500 (2000 / 1000) (1500 / 500) wmDemo (Some (pic ''w''))
     = [Save, GlobalAlpha 0.5, DrawImage (pic ''w'') 1568 1152 400 300, Restore]
   \<and> drawExportCanvas_watermark 2000 1500 (2000 / 1000) (1500 / 500) wmDemo (Some (pic ''w''))
     \<noteq> map (spec_scale (2000 / 1000) (1500 / 500))
         (drawCanvas_watermark 1000 500 wmDemo (Some (pic ''w'')))"
proof -
  have p: "drawCanvas_watermark 1000 500 wmDemo (Some (pic ''w''))
     = [Save, GlobalAlpha 0.5, DrawImage (pic ''w'') 784 334 200 150, Restore]"
    by (simp add: drawCanvas_watermark_def watermarkRect_def wmDemo_def gridDemo_def pic_def Let_def)
  have e: "drawExportCanvas_watermark 2000 1500 (2000 / 1000) (1500 / 500) wmDemo (Some (pic ''w''))
     = [Save, GlobalAlpha 0.5, DrawImage (pic ''w'') 1568 1152 400 300, Restore]"
    by (simp add: drawExportCanvas_watermark_def exportWatermarkRect_def wmDemo_def gridDemo_def
        pic_def Let_def)
  show ?thesis unfolding p e by simp
qed

text \<open>
  C1, amended. Let \<open>scaleX = We/Wp\<close> and \<open>scaleY = He/Hp\<close> for positive sizes, let both
  renderers have the same decoded pictures (in free placement: one per image, in order), and
  let no image be selected in the preview (the selection outline is the preview's alone, as is
  the prompt of the empty scene). Then, at any two scale factors:
  \<^item> the background calls of the export are those of the preview scaled per axis, and so
    are, in every layout mode, the calls of the layout step with their cells, backdrop
    rectangles, blur radius (times \<open>scaleX\<close>) and free-placement rectangles;
  \<^item> in its cell the export fits the picture by the same \<open>drawImage\<close>: clipped to the
    cell, centred on it, in the picture's own aspect ratio, as high or as wide as the cell
    times the zoom;
  \<^item> the watermark's \<open>x\<close>, width and height are the preview's times \<open>scaleX\<close>, and its
    top edge (top anchors), bottom edge (bottom anchors) or centre (centre anchor) is the
    preview's times \<open>scaleY\<close>; opacity and picture are the preview's;
  \<^item> when every font loads, the text calls of the export are the preview's, layer by layer
    and call by call, scaled per axis (position, rotation, font size and shadow blur times
    \<open>scaleY\<close>, shadow offsets) with the font family in quotes, but for the background
    box, which is centred at the origin, as wide as the text measured in the scaled, quoted
    font plus twice \<open>padding * scaleY\<close>, and \<open>(fontSize + 2 padding) * scaleY\<close> high; the
    export's drawing is these four parts in this order;
  \<^item> when a font does not load, the export fails and gives no image.
  When \<open>scaleX = scaleY\<close>, every font loads and the measured width of a text in the scaled,
  quoted font is that factor times the preview's, every call of the export is the preview's
  call scaled (the family of the font quoted); the preview's own sequence has a
  \<open>save\<close>/\<open>restore\<close> pair around the layout step in addition.
\<close>

theorem export_scales_preview:
  assumes "0 < Wp" "0 < Hp" "0 < EW" "0 < EH"
      and "layoutMode sc = Freeform \<longrightarrow> aligned (images sc) (bm_grid bm)"
  shows "let scaleX = EW / Wp;
             scaleY = EH / Hp;
             S = spec_scale scaleX scaleY;
             notBox = (\<lambda>c. \<not> is_FillRect c);
             fontsLoad = (\<forall>l\<in>set (textLayers sc). fontLoads (fontSize l * scaleY) (fontFamily l));
             anchoredY = (\<lambda>wm y h. case wm_position wm of
                              TopLeft \<Rightarrow> y * scaleY
                            | TopRight \<Rightarrow> y * scaleY
                            | BottomLeft \<Rightarrow> (y + h) * scaleY - h * scaleX
                            | BottomRight \<Rightarrow> (y + h) * scaleY - h * scaleX
                            | Center \<Rightarrow> (y + h / 2) * scaleY - h * scaleX / 2);
             exportWatermark =
               (case (watermark sc, bm_watermark bm) of
                  (Some wm, Some b) \<Rightarrow>
                    (case watermarkRect Wp Hp (gap sc) wm b of
                       (x, y, w, h) \<Rightarrow>
                         [Save, GlobalAlpha (wm_opacity wm),
                          DrawImage b (x * scaleX) (anchoredY wm y h) (w * scaleX) (h * scaleX),
                          Restore])
                | _ \<Rightarrow> []);
             exportText =
               concat (map (\<lambda>l.
                 map (\<lambda>c. if is_FillRect c
                           then (let rectW = mt (fontSize l * scaleY) (quoteFamily (fontFamily l))
                                               (txt_text l) + padding l * scaleY * 2;
                                     rectH = fontSize l * scaleY + padding l * scaleY * 2
                                 in FillRect (- rectW / 2) (- rectH / 2) rectW rectH)
                           else quoteFont (S c))
                   (drawTextLayer mt l)) (textLayers sc))
         in drawBackground EW EH (background sc) (bm_background bm)
              = map S (drawBackground Wp Hp (background sc) (bm_background bm))
          \<and> drawExportCanvas_layout EW EH scaleX scaleY sc (bm_grid bm)
              = map S (drawCanvas_layout Wp Hp sc (bm_grid bm) None)
          \<and> (\<forall>img x y w h ez. 0 < bm_width img \<and> 0 < bm_height img \<longrightarrow>
                (\<exists>rx ry rw rh.
                   drawImage (imageFit sc) (globalZoom sc) img x y w h ez =
                     [Save, BeginPath, Rect x y w h, Clip, DrawImage img rx ry rw rh, Restore]
                   \<and> rw * bm_height img = rh * bm_width img
                   \<and> rx + rw / 2 = x + w / 2 \<and> ry + rh / 2 = y + h / 2
                   \<and> (rh = h * (globalZoom sc * ez) \<or> rw = w * (globalZoom sc * ez))))
          \<and> (\<forall>wm b. watermark sc = Some wm \<longrightarrow>
                (case (watermarkRect Wp Hp (gap sc) wm b,
                       exportWatermarkRect EW EH (gap sc * scaleX) (gap sc * scaleY) wm b) of
                   ((x, y, w, h), (ex, ey, ew, eh)) \<Rightarrow>
                     ex = x * scaleX \<and> ey = anchoredY wm y h \<and> ew = w * scaleX \<and> eh = h * scaleX))
          \<and> drawExportCanvas_watermark EW EH scaleX scaleY sc (bm_watermark bm) = exportWatermark
          \<and> filter notBox exportText = map (quoteFont \<circ> S) (filter notBox (drawCanvas_text mt sc))
          \<and> (fontsLoad \<longrightarrow>
                drawExportCanvas_text fontLoads mt scaleX scaleY (textLayers sc) = Inr exportText
                \<and> drawExportCanvas fontLoads mt EW EH Wp Hp sc bm
                  = Inr (map S (drawBackground Wp Hp (background sc) (bm_background bm)) @
                         expandAll (imageFit sc) (globalZoom sc)
                           (map S (drawCanvas_layout Wp Hp sc (bm_grid bm) None)) @
                         exportWatermark @
                         exportText))
          \<and> (\<not> fontsLoad \<longrightarrow> (\<exists>e. drawExportCanvas fontLoads mt EW EH Wp Hp sc bm = Inl e))
          \<and> (scaleX = scaleY \<and> fontsLoad \<and>
              (\<forall>l\<in>set (textLayers sc). 0 < backgroundOpacity l \<longrightarrow>
                 mt (fontSize l * scaleY) (quoteFamily (fontFamily l)) (txt_text l)
                   = mt (fontSize l) (fontFamily l) (txt_text l) * scaleY) \<longrightarrow>
                drawExportCanvas fontLoads mt EW EH Wp Hp sc bm
                  = Inr (map S (drawBackground Wp Hp (background sc) (bm_background bm) @
                                expandAll (imageFit sc) (globalZoom sc)
                                  (drawCanvas_layout Wp Hp sc (bm_grid bm) None) @
                                drawCanvas_watermark Wp Hp sc (bm_watermark bm)) @
                         map (quoteFont \<circ> S) (drawCanvas_text mt sc)))
          \<and> (\<not> (images sc = [] \<and> textLayers sc = [] \<and> watermark sc = None) \<longrightarrow>
                drawCanvas mt Wp Hp sc bm None
                  = drawBackground Wp Hp (background sc) (bm_background bm) @
                    [Save] @
                    expandAll (imageFit sc) (globalZoom sc)
                      (drawCanvas_layout Wp Hp sc (bm_grid bm) None) @
                    [Restore] @
                    drawCanvas_watermark Wp Hp sc (bm_watermark bm) @
                    drawCanvas_text mt sc)"
proof -
  let ?sx = "EW / Wp" and ?sy = "EH / Hp"
  let ?S = "spec_scale ?sx ?sy"
  let ?fontsLoad = "\<forall>l\<in>set (textLayers sc). fontLoads (fontSize l * ?sy) (fontFamily l)"
  let ?anchoredY = "\<lambda>wm y h. case wm_position wm of
                              TopLeft \<Rightarrow> y * ?sy
                            | TopRight \<Rightarrow> y * ?sy
                            | BottomLeft \<Rightarrow> (y + h) * ?sy - h * ?sx
                            | BottomRight \<Rightarrow> (y + h) * ?sy - h * ?sx
                            | Center \<Rightarrow> (y + h / 2) * ?sy - h * ?sx / 2"
  let ?W = "case (watermark sc, bm_watermark bm) of
                  (Some wm, Some b) \<Rightarrow>
                    (case watermarkRect Wp Hp (gap sc) wm b of
                       (x, y, w, h) \<Rightarrow>
                         [Save, GlobalAlpha (wm_opacity wm),
                          DrawImage b (x * ?sx) (?anchoredY wm y h) (w * ?sx) (h * ?sx),
                          Restore])
                | _ \<Rightarrow> []"
  let ?T = "concat (map (\<lambda>l.
                 map (\<lambda>c. if is_FillRect c
                           then FillRect
                                  (- (mt (fontSize l * ?sy) (quoteFamily (fontFamily l)) (txt_text l)
                                      + padding l * ?sy * 2) / 2)
                                  (- (fontSize l * ?sy + padding l * ?sy * 2) / 2)
                                  (mt (fontSize l * ?sy) (quoteFamily (fontFamily l)) (txt_text l)
                                      + padding l * ?sy * 2)
                                  (fontSize l * ?sy + padding l * ?sy * 2)
                           else quoteFont (?S c))
                   (drawTextLayer mt l)) (textLayers sc))"
  have EW: "EW = Wp * ?sx" and EH: "EH = Hp * ?sy" using assms(1,2) by simp_all
  have T_eq: "?T = concat (map (drawExportTextLayer mt ?sx ?sy) (textLayers sc))"
    unfolding exportTextLayer_calls [symmetric] by (rule refl)
  have bg: "drawBackground EW EH (background sc) (bm_background bm)
              = map ?S (drawBackground Wp Hp (background sc) (bm_background bm))"
    by (subst EW, subst EH) (rule background_scale)
  have lay: "drawExportCanvas_layout EW EH ?sx ?sy sc (bm_grid bm)
              = map ?S (drawCanvas_layout Wp Hp sc (bm_grid bm) None)"
    by (subst EW, subst EH) (rule layout_scale [OF assms(5)])
  have fitted: "\<forall>img x y w h ez. 0 < bm_width img \<and> 0 < bm_height img \<longrightarrow>
                (\<exists>rx ry rw rh.
                   drawImage (imageFit sc) (globalZoom sc) img x y w h ez =
                     [Save, BeginPath, Rect x y w h, Clip, DrawImage img rx ry rw rh, Restore]
                   \<and> rw * bm_height img = rh * bm_width img
                   \<and> rx + rw / 2 = x + w / 2 \<and> ry + rh / 2 = y + h / 2
                   \<and> (rh = h * (globalZoom sc * ez) \<or> rw = w * (globalZoom sc * ez)))"
    by (intro allI impI, elim conjE) (rule drawImage_fitted)
  have wmr: "\<forall>wm b. watermark sc = Some wm \<longrightarrow>
                (case (watermarkRect Wp Hp (gap sc) wm b,
                       exportWatermarkRect EW EH (gap sc * ?sx) (gap sc * ?sy) wm b) of
                   ((x, y, w, h), (ex, ey, ew, eh)) \<Rightarrow>
                     ex = x * ?sx \<and> ey = ?anchoredY wm y h \<and> ew = w * ?sx \<and> eh = h * ?sx)"
  proof (intro allI impI)
    fix wm b
    obtain x y w h where p: "watermarkRect Wp Hp (gap sc) wm b = (x, y, w, h)"
      by (metis prod_cases4)
    have "exportWatermarkRect (Wp * ?sx) (Hp * ?sy) (gap sc * ?sx) (gap sc * ?sy) wm b
          = (x * ?sx, ?anchoredY wm y h, w * ?sx, h * ?sx)"
      unfolding exportWatermarkRect_anchor p by simp
    then have "exportWatermarkRect EW EH (gap sc * ?sx) (gap sc * ?sy) wm b
          = (x * ?sx, ?anchoredY wm y h, w * ?sx, h * ?sx)"
      using EW EH by simp
    with p show "case (watermarkRect Wp Hp (gap sc) wm b,
                       exportWatermarkRect EW EH (gap sc * ?sx) (gap sc * ?sy) wm b) of
                   ((x, y, w, h), (ex, ey, ew, eh)) \<Rightarrow>
                     ex = x * ?sx \<and> ey = ?anchoredY wm y h \<and> ew = w * ?sx \<and> eh = h * ?sx"
      by simp
  qed
  have wm: "drawExportCanvas_watermark EW EH ?sx ?sy sc (bm_watermark bm) = ?W"
    by (subst EW, subst EH) (rule exportWatermark_calls)
  have nobox: "filter (\<lambda>c. \<not> is_FillRect c) ?T
               = map (quoteFont \<circ> ?S) (filter (\<lambda>c. \<not> is_FillRect c) (drawCanvas_text mt sc))"
    unfolding T_eq drawCanvas_text_def by (rule text_scale_no_box)
  have loaded: "?fontsLoad \<longrightarrow>
                drawExportCanvas_text fontLoads mt ?sx ?sy (textLayers sc) = Inr ?T
                \<and> drawExportCanvas fontLoads mt EW EH Wp Hp sc bm
                  = Inr (map ?S (drawBackground Wp Hp (background sc) (bm_background bm)) @
                         expandAll (imageFit sc) (globalZoom sc)
                           (map ?S (drawCanvas_layout Wp Hp sc (bm_grid bm) None)) @
                         ?W @ ?T)"
  proof
    assume fl: ?fontsLoad
    have t: "drawExportCanvas_text fontLoads mt ?sx ?sy (textLayers sc) = Inr ?T"
      unfolding T_eq by (rule exportText_loaded [OF fl])
    have "drawExportCanvas fontLoads mt EW EH Wp Hp sc bm
                  = Inr (map ?S (drawBackground Wp Hp (background sc) (bm_background bm)) @
                         expandAll (imageFit sc) (globalZoom sc)
                           (map ?S (drawCanvas_layout Wp Hp sc (bm_grid bm) None)) @
                         ?W @ ?T)"
      unfolding drawExportCanvas_def Let_def t bg lay wm by simp
    with t show "drawExportCanvas_text fontLoads mt ?sx ?sy (textLayers sc) = Inr ?T
                \<and> drawExportCanvas fontLoads mt EW EH Wp Hp sc bm
                  = Inr (map ?S (drawBackground Wp Hp (background sc) (bm_background bm)) @
                         expandAll (imageFit sc) (globalZoom sc)
                           (map ?S (drawCanvas_layout Wp Hp sc (bm_grid bm) None)) @
                         ?W @ ?T)" by blast
  qed
  have rejected: "\<not> ?fontsLoad \<longrightarrow> (\<exists>e. drawExportCanvas fontLoads mt EW EH Wp Hp sc bm = Inl e)"
  proof
    assume "\<not> ?fontsLoad"
    then have "\<exists>l\<in>set (textLayers sc). \<not> fontLoads (fontSize l * ?sy) (fontFamily l)" by blast
    from exportText_rejected [OF this, of mt ?sx] obtain e
      where "drawExportCanvas_text fontLoads mt ?sx ?sy (textLayers sc) = Inl e" ..
    then show "\<exists>e. drawExportCanvas fontLoads mt EW EH Wp Hp sc bm = Inl e"
      by (simp add: drawExportCanvas_def Let_def)
  qed
  have whole: "?sx = ?sy \<and> ?fontsLoad \<and>
              (\<forall>l\<in>set (textLayers sc). 0 < backgroundOpacity l \<longrightarrow>
                 mt (fontSize l * ?sy) (quoteFamily (fontFamily l)) (txt_text l)
                   = mt (fontSize l) (fontFamily l) (txt_text l) * ?sy) \<longrightarrow>
              drawExportCanvas fontLoads mt EW EH Wp Hp sc bm
                  = Inr (map ?S (drawBackground Wp Hp (background sc) (bm_background bm) @
                                expandAll (imageFit sc) (globalZoom sc)
                                  (drawCanvas_layout Wp Hp sc (bm_grid bm) None) @
                                drawCanvas_watermark Wp Hp sc (bm_watermark bm)) @
                         map (quoteFont \<circ> ?S) (drawCanvas_text mt sc))"
  proof (intro impI, elim conjE)
    assume u: "?sx = ?sy" and fl: ?fontsLoad
      and lin: "\<forall>l\<in>set (textLayers sc). 0 < backgroundOpacity l \<longrightarrow>
                 mt (fontSize l * ?sy) (quoteFamily (fontFamily l)) (txt_text l)
                   = mt (fontSize l) (fontFamily l) (txt_text l) * ?sy"
    have pos: "0 < ?sy" using assms(2,4) by simp
    have EW': "EW = Wp * ?sy" using EW u by simp
    have l: "expandAll (imageFit sc) (globalZoom sc)
               (drawExportCanvas_layout EW EH ?sy ?sy sc (bm_grid bm))
             = map (spec_scale ?sy ?sy) (expandAll (imageFit sc) (globalZoom sc)
                 (drawCanvas_layout Wp Hp sc (bm_grid bm) None))"
      using lay unfolding u by (simp only: expandAll_scale [OF pos])
    have w: "drawExportCanvas_watermark EW EH ?sy ?sy sc (bm_watermark bm)
             = map (spec_scale ?sy ?sy) (drawCanvas_watermark Wp Hp sc (bm_watermark bm))"
      by (subst EW', subst EH) (rule watermark_scale_uniform)
    have t: "drawExportCanvas_text fontLoads mt ?sy ?sy (textLayers sc)
             = Inr (map (quoteFont \<circ> spec_scale ?sy ?sy) (drawCanvas_text mt sc))"
      using exportText_loaded [OF fl, of mt ?sx] text_scale_uniform [OF lin]
      unfolding u drawCanvas_text_def by simp
    show "drawExportCanvas fontLoads mt EW EH Wp Hp sc bm
                  = Inr (map ?S (drawBackground Wp Hp (background sc) (bm_background bm) @
                                expandAll (imageFit sc) (globalZoom sc)
                                  (drawCanvas_layout Wp Hp sc (bm_grid bm) None) @
                                drawCanvas_watermark Wp Hp sc (bm_watermark bm)) @
                         map (quoteFont \<circ> ?S) (drawCanvas_text mt sc))"
      unfolding drawExportCanvas_def Let_def u t using bg [unfolded u] l w by simp
  qed
  have prev: "\<not> (images sc = [] \<and> textLayers sc = [] \<and> watermark sc = None) \<longrightarrow>
              drawCanvas mt Wp Hp sc bm None
                  = drawBackground Wp Hp (background sc) (bm_background bm) @
                    [Save] @
                    expandAll (imageFit sc) (globalZoom sc)
                      (drawCanvas_layout Wp Hp sc (bm_grid bm) None) @
                    [Restore] @
                    drawCanvas_watermark Wp Hp sc (bm_watermark bm) @
                    drawCanvas_text mt sc"
    by (auto simp add: drawCanvas_def)
  show ?thesis
    unfolding Let_def
    by (intro conjI bg lay fitted wmr wm nobox loaded rejected whole prev)
qed

theorem export_scales_preview_witness:
  "drawExportCanvas_layout 2000 1500 (5/2) (5/2) c1Demo (bm_grid c1Bitmaps)
     = map (spec_scale (5/2) (5/2)) (drawCanvas_layout 800 600 c1Demo (bm_grid c1Bitmaps) None)
   \<and> drawExportCanvas demoFontLoads demoMeasure 2000 1500 800 600 c1Demo c1Bitmaps
     = Inr (map (spec_scale (5/2) (5/2))
              (drawBackground 800 600 (background c1Demo) (bm_background c1Bitmaps) @
               expandAll (imageFit c1Demo) (globalZoom c1Demo)
                 (drawCanvas_layout 800 600 c1Demo (bm_grid c1Bitmaps) None) @
               drawCanvas_watermark 800 600 c1Demo (bm_watermark c1Bitmaps)) @
            map (quoteFont \<circ> spec_scale (5/2) (5/2)) (drawCanvas_text demoMeasure c1Demo))
   \<and> drawExportCanvas_watermark 2000 1500 2 3 c1Demo (bm_watermark c1Bitmaps)
     = [Save, GlobalAlpha 0.5, DrawImage (pic ''w'') 1568 1152 400 300, Restore]
   \<and> drawExportCanvas_text demoFontLoads demoMeasure 2 3 (textLayers c1Demo)
     = Inr [Save, Translate 200 300, Rotate (pi / 2), TextAlign ''center'', TextBaseline ''middle'',
            Font 144 (quoteFamily ''Montserrat''),
            GlobalAlpha 0.5, FillStyle ''#000000'', FillRect (- 318) (- 102) 636 204, GlobalAlpha 1,
            ShadowColor ''rgba(0, 0, 0, 0.75)'', ShadowBlur 30, ShadowOffsetX 10, ShadowOffsetY 15,
            FillStyle ''#FFFFFF'', FillText ''New Text'' 0 0, Restore]
   \<and> (\<exists>e. drawExportCanvas (\<lambda>fsize family. False) demoMeasure 2000 1500 800 600 c1Demo c1Bitmaps
            = Inl e)"
proof -
  have sz: "(0::real) < 800" "(0::real) < 600" "(0::real) < 2000" "(0::real) < 1500" by simp_all
  have sz2: "(0::real) < 1000" "(0::real) < 500" "(0::real) < 2000" "(0::real) < 1500" by simp_all
  have al: "layoutMode c1Demo = Freeform \<longrightarrow> aligned (images c1Demo) (bm_grid c1Bitmaps)"
    by (simp add: aligned_def c1Demo_def freeDemo_def freeImages_def c1Bitmaps_def pic_def
        less_Suc_eq numeral_eq_Suc)
  have sx: "(2000::real) / 800 = 5 / 2" "(1500::real) / 600 = 5 / 2" by simp_all
  have sx2: "(2000::real) / 1000 = 2" "(1500::real) / 500 = 3" by simp_all
  have tl: "textLayers c1Demo = [textDemo]" by (simp add: c1Demo_def)
  have fonts: "\<forall>l\<in>set (textLayers c1Demo). demoFontLoads (fontSize l * s) (fontFamily l)" for s
    by (simp add: tl demoFontLoads_def textDemo_def)
  have lin: "\<forall>l\<in>set (textLayers c1Demo). 0 < backgroundOpacity l \<longrightarrow>
       demoMeasure (fontSize l * (5 / 2)) (quoteFamily (fontFamily l)) (txt_text l)
         = demoMeasure (fontSize l) (fontFamily l) (txt_text l) * (5 / 2)"
    by (simp add: demoMeasure_def)
  note th = export_scales_preview [OF sz al, of demoFontLoads demoMeasure, unfolded Let_def sx]
  have a: "drawExportCanvas_layout 2000 1500 (5/2) (5/2) c1Demo (bm_grid c1Bitmaps)
     = map (spec_scale (5/2) (5/2)) (drawCanvas_layout 800 600 c1Demo (bm_grid c1Bitmaps) None)"
    by (rule th [THEN conjunct2, THEN conjunct1])
  have b: "drawExportCanvas demoFontLoads demoMeasure 2000 1500 800 600 c1Demo c1Bitmaps
     = Inr (map (spec_scale (5/2) (5/2))
              (drawBackground 800 600 (background c1Demo) (bm_background c1Bitmaps) @
               expandAll (imageFit c1Demo) (globalZoom c1Demo)
                 (drawCanvas_layout 800 600 c1Demo (bm_grid c1Bitmaps) None) @
               drawCanvas_watermark 800 600 c1Demo (bm_watermark c1Bitmaps)) @
            map (quoteFont \<circ> spec_scale (5/2) (5/2)) (drawCanvas_text demoMeasure c1Demo))"
    using th [THEN conjunct2, THEN conjunct2, THEN conjunct2, THEN conjunct2, THEN conjunct2,
              THEN conjunct2, THEN conjunct2, THEN conjunct2, THEN conjunct1] lin fonts [of "5/2"]
    by blast
  note th2 = export_scales_preview [OF sz2 al, of demoFontLoads demoMeasure, unfolded Let_def sx2]
  have c: "drawExportCanvas_watermark 2000 1500 2 3 c1Demo (bm_watermark c1Bitmaps)
     = [Save, GlobalAlpha 0.5, DrawImage (pic ''w'') 1568 1152 400 300, Restore]"
    unfolding th2 [THEN conjunct2, THEN conjunct2, THEN conjunct2, THEN conjunct2, THEN conjunct1]
    by (simp add: c1Demo_def freeDemo_def gridDemo_def c1Bitmaps_def watermarkRect_def pic_def Let_def)
  have d: "drawExportCanvas_text demoFontLoads demoMeasure 2 3 (textLayers c1Demo)
     = Inr [Save, Translate 200 300, Rotate (pi / 2), TextAlign ''center'', TextBaseline ''middle'',
            Font 144 (quoteFamily ''Montserrat''),
            GlobalAlpha 0.5, FillStyle ''#000000'', FillRect (- 318) (- 102) 636 204, GlobalAlpha 1,
            ShadowColor ''rgba(0, 0, 0, 0.75)'', ShadowBlur 30, ShadowOffsetX 10, ShadowOffsetY 15,
            FillStyle ''#FFFFFF'', FillText ''New Text'' 0 0, Restore]"
    using th2 [THEN conjunct2, THEN conjunct2, THEN conjunct2, THEN conjunct2, THEN conjunct2,
               THEN conjunct2, THEN conjunct1] fonts [of 3]
    by (simp add: tl drawTextLayer_def textDemo_def demoMeasure_def)
  note th3 = export_scales_preview [OF sz al, of "\<lambda>fsize family. False" demoMeasure,
      unfolded Let_def sx]
  have e: "\<exists>e. drawExportCanvas (\<lambda>fsize family. False) demoMeasure 2000 1500 800 600 c1Demo c1Bitmaps
            = Inl e"
    using th3 [THEN conjunct2, THEN conjunct2, THEN conjunct2, THEN conjunct2, THEN conjunct2,
               THEN conjunct2, THEN conjunct2, THEN conjunct1]
    by (simp add: tl)
  from a b c d e show ?thesis by blast
qed

end
